theory Spec2Isabelle
  imports Complex_Main "HOL-Library.Word" "HOL-Library.Multiset"
begin

section \<open>JavaScript strings\<close>

text \<open>
  A JavaScript string is a sequence of 16-bit UTF-16 code units. Literals of the source are
  written \<open>js ''...''\<close>: every character of an ASCII literal is one code unit.
\<close>

type_synonym jsstring = "16 word list"

definition js :: "string \<Rightarrow> jsstring" where
  "js s = map (\<lambda>c. of_nat (of_char c)) s"

section \<open>lib/format: ordinal\<close>

text \<open>
  The remainder operator \<open>%\<close> of JavaScript on integers: the result takes the sign of the
  dividend.
\<close>

definition js_rem :: "int \<Rightarrow> int \<Rightarrow> int" where
  "js_rem a b = sgn a * (\<bar>a\<bar> mod \<bar>b\<bar>)"

text \<open>
  Reading \<open>arr[k]\<close> for an integer \<open>k\<close>: a hole of the array literal and every index out
  of range give \<open>undefined\<close>, here \<open>None\<close>.
\<close>

definition js_index :: "'a option list \<Rightarrow> int \<Rightarrow> 'a option" where
  "js_index xs k = (if 0 \<le> k \<and> k < int (length xs) then xs ! nat k else None)"

text \<open>The array literal \<open>[, "st", "nd", "rd"]\<close>: its element 0 is a hole.\<close>

definition ord :: "jsstring option list" where
  "ord = [None, Some (js ''st''), Some (js ''nd''), Some (js ''rd'')]"

text \<open>
  \<open>ord[a > 20 ? a % 10 : a] || "th"\<close>: the three strings of \<open>ord\<close> are non-empty, hence
  truthy, so \<open>||\<close> takes its right operand exactly when the read gives \<open>undefined\<close>.
\<close>

definition ordinal :: "int \<Rightarrow> jsstring" where
  "ordinal n =
     (let a = js_rem n 100
      in case js_index ord (if a > 20 then js_rem a 10 else a) of
           None \<Rightarrow> js ''th''
         | Some s \<Rightarrow> s)"

section \<open>TableSnippet: tableSnippetRange\<close>

text \<open>\<open>Array.prototype.indexOf\<close>: the first index holding the element, or \<open>-1\<close>.\<close>

fun indexOf_from :: "'a list \<Rightarrow> 'a \<Rightarrow> int \<Rightarrow> int" where
  "indexOf_from [] x k = - 1"
| "indexOf_from (y # ys) x k = (if y = x then k else indexOf_from ys x (k + 1))"

definition indexOf :: "'a list \<Rightarrow> 'a \<Rightarrow> int" where
  "indexOf xs x = indexOf_from xs x 0"

definition tableSnippetRange :: "jsstring list \<Rightarrow> jsstring \<Rightarrow> int \<times> int" where
  "tableSnippetRange sortedTeams team =
     (let teamStandingsIdx = indexOf sortedTeams team;
          low = teamStandingsIdx - 3;
          high = teamStandingsIdx + 4;
          (low, high) = (if low < 0 then (0, high - low) else (low, high));
          (low, high) =
            (if high > int (length sortedTeams) - 1
             then (low - (high - int (length sortedTeams)), int (length sortedTeams))
             else (low, high))
      in (low, high))"

section \<open>lib/team: toInitials\<close>

text \<open>
  \<open>String.prototype.toUpperCase\<close> maps every code point through the Unicode upper-case
  mapping, which may give several characters for one. For Basic Latin and Latin-1 Supplement
  (code units below \<open>0x100\<close>) the mapping is written out: \<open>a-z\<close> and \<open>U+00E0 .. U+00FE\<close>
  except the division sign move down by \<open>0x20\<close>, the micro sign becomes \<open>U+039C\<close>,
  \<open>U+00FF\<close> becomes \<open>U+0178\<close> and the sharp s \<open>U+00DF\<close> becomes the two letters "SS".
\<close>

definition upper_latin1 :: "16 word \<Rightarrow> jsstring" where
  "upper_latin1 u =
     (if 0x61 \<le> u \<and> u \<le> 0x7A then [u - 0x20]
      else if u = 0xB5 then [0x39C]
      else if u = 0xDF then [0x53, 0x53]
      else if 0xE0 \<le> u \<and> u \<le> 0xFE \<and> u \<noteq> 0xF7 then [u - 0x20]
      else if u = 0xFF then [0x178]
      else [u])"

text \<open>
  The mapping of the runtime for a string with a code unit from \<open>U+0100\<close> on (the rest of
  the Unicode tables, surrogate pairs included) is the parameter \<open>unicode_upper\<close>.
\<close>

definition toUpperCase :: "(jsstring \<Rightarrow> jsstring) \<Rightarrow> jsstring \<Rightarrow> jsstring" where
  "toUpperCase unicode_upper s =
     (if list_all (\<lambda>u. u < 0x100) s then concat (map upper_latin1 s) else unicode_upper s)"

text \<open>\<open>slice(a, b)\<close> for non-negative indices.\<close>

definition js_slice :: "'a list \<Rightarrow> nat \<Rightarrow> nat \<Rightarrow> 'a list" where
  "js_slice xs a b = take (b - a) (drop a xs)"

definition toInitials :: "(jsstring \<Rightarrow> jsstring) \<Rightarrow> jsstring \<Rightarrow> jsstring" where
  "toInitials unicode_upper team =
     (if team = js ''Brighton and Hove Albion'' then js ''BHA''
      else if team = js ''Manchester City'' then js ''MCI''
      else if team = js ''Manchester United'' then js ''MUN''
      else if team = js ''Aston Villa'' then js ''AVL''
      else if team = js ''Sheffield United'' then js ''SHU''
      else if team = js ''West Bromwich Albion'' then js ''WBA''
      else if team = js ''West Ham United'' then js ''WHU''
      else toUpperCase unicode_upper (js_slice team 0 3))"

section \<open>Server-side rendering: escape\<close>

text \<open>
  The two global regular expressions \<open>/[&"]/g\<close> and \<open>/[&<]/g\<close> are character classes: a
  match is one code unit of the class. The only state of such an object is \<open>lastIndex\<close>.
\<close>

definition ATTR_REGEX :: "16 word \<Rightarrow> bool" where
  "ATTR_REGEX c \<longleftrightarrow> c = 0x26 \<or> c = 0x22"

definition CONTENT_REGEX :: "16 word \<Rightarrow> bool" where
  "CONTENT_REGEX c \<longleftrightarrow> c = 0x26 \<or> c = 0x3C"

text \<open>
  \<open>pattern.test(str)\<close> on a global expression searches from \<open>lastIndex\<close>; when it finds a
  match at \<open>i\<close> it returns \<open>true\<close> and leaves \<open>lastIndex = i + 1\<close>, otherwise it returns
  \<open>false\<close> and resets \<open>lastIndex\<close> to 0. The result is the pair of both.
\<close>

definition regex_test :: "(16 word \<Rightarrow> bool) \<Rightarrow> jsstring \<Rightarrow> nat \<Rightarrow> bool \<times> nat" where
  "regex_test pattern str lastIndex =
     (let i = lastIndex + length (takeWhile (\<lambda>c. \<not> pattern c) (drop lastIndex str))
      in if i < length str then (True, i + 1) else (False, 0))"

text \<open>\<open>str.substring(a, b)\<close>: both indices are clamped to the length and swapped if needed.\<close>

definition substring :: "jsstring \<Rightarrow> nat \<Rightarrow> nat \<Rightarrow> jsstring" where
  "substring str a b =
     (let a' = min a (length str); b' = min b (length str)
      in take (max a' b' - min a' b') (drop (min a' b') str))"

text \<open>\<open>str[i]\<close>: \<open>undefined\<close> (here \<open>None\<close>) out of range.\<close>

definition char_at :: "jsstring \<Rightarrow> nat \<Rightarrow> 16 word option" where
  "char_at str i = (if i < length str then Some (str ! i) else None)"

lemma regex_test_True:
  "regex_test pattern str lastIndex = (True, l) \<Longrightarrow> lastIndex < l \<and> l \<le> length str"
  by (auto simp: regex_test_def Let_def split: if_splits)

text \<open>
  The \<open>while\<close> loop of \<open>escape\<close>, on the state \<open>lastIndex\<close>, \<open>escaped\<close>, \<open>last\<close>. It ends
  because every successful test moves \<open>lastIndex\<close> forward.
\<close>

function escape_loop ::
  "(16 word \<Rightarrow> bool) \<Rightarrow> jsstring \<Rightarrow> nat \<Rightarrow> jsstring \<Rightarrow> nat \<Rightarrow> jsstring" where
  "escape_loop pattern str lastIndex escaped last' =
     (case regex_test pattern str lastIndex of
        (False, _) \<Rightarrow> escaped @ substring str last' (length str)
      | (True, lastIndex') \<Rightarrow>
          (let i = lastIndex' - 1;
               ch = char_at str i
           in escape_loop pattern str lastIndex'
                (escaped @ substring str last' i
                   @ (if ch = Some 0x26 then js ''&amp;''
                      else if ch = Some 0x22 then js ''&quot;'' else js ''&lt;''))
                (i + 1)))"
  by pat_completeness auto
termination
  by (relation "measure (\<lambda>(pattern, str, lastIndex, escaped, last'). length str - lastIndex)")
     (auto dest!: regex_test_True [OF sym])

declare escape_loop.simps [simp del]

text \<open>\<open>escape(value, is_attr)\<close>, from \<open>str = String(value)\<close> on.\<close>

definition escape :: "jsstring \<Rightarrow> bool \<Rightarrow> jsstring" where
  "escape str is_attr =
     (let pattern = (if is_attr then ATTR_REGEX else CONTENT_REGEX)
      in escape_loop pattern str 0 [] 0)"

text \<open>
  The reference implementation, one character at a time: \<open>&\<close> becomes \<open>&amp;\<close>; in
  attribute mode the double quote becomes \<open>&quot;\<close>; in content mode \<open><\<close> becomes \<open>&lt;\<close>;
  every other character stays.
\<close>

definition escape_char :: "bool \<Rightarrow> 16 word \<Rightarrow> jsstring" where
  "escape_char is_attr c =
     (if c = 0x26 then js ''&amp;''
      else if is_attr \<and> c = 0x22 then js ''&quot;''
      else if \<not> is_attr \<and> c = 0x3C then js ''&lt;''
      else [c])"

definition escape_reference :: "jsstring \<Rightarrow> bool \<Rightarrow> jsstring" where
  "escape_reference str is_attr = concat (map (escape_char is_attr) str)"

section \<open>JavaScript values and safe_not_equal\<close>

text \<open>
  Numbers are \<open>NaN\<close>, the two infinities and the finite values; \<open>+0\<close> and \<open>-0\<close>, which
  \<open>===\<close> does not tell apart, are both \<open>Finite 0\<close>. Objects and functions are references,
  compared by identity.
\<close>

datatype jsnum = NaN | PosInfinity | NegInfinity | Finite rat







section \<open>The writable store\<close>











text \<open>
  What the code throws, or a promise it awaits is rejected with: a \<open>TypeError\<close>, a
  \<open>URIError\<close>, the \<open>SyntaxError\<close> of a body that is not JSON, and \<open>FetchError\<close> for the
  rejection of \<open>fetch\<close>.
\<close>

datatype error = TypeError | URIError | SyntaxError | FetchError




section \<open>StatsValues: clean sheets and buildStats\<close>

text \<open>
  The part of the fetched object that \<open>buildStats\<close> reads. A JSON object is the list of its
  properties in the order \<open>Object.keys\<close> gives them, read with \<open>map_of\<close>; \<open>null\<close> is \<open>None\<close>.
  Every \<open>data.form[team][season][matchday]\<close> is an object with a \<open>score\<close>, \<open>null\<close> for a
  match not played yet, and the flag \<open>atHome\<close>; the goals of a score are integers here. Of
  \<open>data.standings\<close> only the keys are read.
\<close>

record 'n score =
  homeGoals :: 'n
  awayGoals :: 'n

record matchday_form =
  score :: "int score option"
  atHome :: bool

record 's data =
  data_id :: int
  standings :: "(jsstring \<times> 's) list"
  form :: "(jsstring \<times> (int \<times> (jsstring \<times> matchday_form) list) list) list"

definition isCleanSheet :: "int \<Rightarrow> int \<Rightarrow> bool \<Rightarrow> bool" where
  "isCleanSheet h a atHome' \<longleftrightarrow> (a = 0 \<and> atHome') \<or> (h = 0 \<and> \<not> atHome')"

definition notScored :: "int \<Rightarrow> int \<Rightarrow> bool \<Rightarrow> bool" where
  "notScored h a atHome' \<longleftrightarrow> (h = 0 \<and> atHome') \<or> (a = 0 \<and> \<not> atHome')"

definition goalsScored :: "int \<Rightarrow> int \<Rightarrow> bool \<Rightarrow> int" where
  "goalsScored h a atHome' = (if atHome' then h else a)"

definition goalsConceded :: "int \<Rightarrow> int \<Rightarrow> bool \<Rightarrow> int" where
  "goalsConceded h a atHome' = (if atHome' then a else h)"

text \<open>
  The object \<open>stats[team]\<close>. Its numbers are rationals: a count, or the exact quotient of two
  counts, of which the JavaScript number is the nearest double.
\<close>

record team_stats =
  cleanSheetRatio :: rat
  noGoalRatio :: rat
  xC :: rat
  xG :: rat
  played :: rat

type_synonym stats = "jsstring \<rightharpoonup> team_stats"

text \<open>The body of the loop of \<open>countOccurances\<close> for a match with a score.\<close>

definition count_match :: "int score \<Rightarrow> bool \<Rightarrow> team_stats \<Rightarrow> team_stats" where
  "count_match sc atHome' st =
     (let st1 = (if isCleanSheet (homeGoals sc) (awayGoals sc) atHome'
                 then st\<lparr>cleanSheetRatio := cleanSheetRatio st + 1\<rparr> else st);
          st2 = (if notScored (homeGoals sc) (awayGoals sc) atHome'
                 then st1\<lparr>noGoalRatio := noGoalRatio st1 + 1\<rparr> else st1);
          st3 = st2\<lparr>xG := xG st2 + of_int (goalsScored (homeGoals sc) (awayGoals sc) atHome')\<rparr>;
          st4 = st3\<lparr>xC := xC st3 + of_int (goalsConceded (homeGoals sc) (awayGoals sc) atHome')\<rparr>
      in st4\<lparr>played := played st4 + 1\<rparr>)"

text \<open>
  The objects parsed from JSON inherit from \<open>Object.prototype\<close>. The operator \<open>in\<close> and
  the read \<open>obj[k]\<close> look a name up in the object and then in its prototype; these are the
  names found there. The value inherited under one of them is a function, or
  \<open>Object.prototype\<close> itself under \<open>__proto__\<close>.
\<close>

definition object_prototype_names :: "jsstring list" where
  "object_prototype_names =
     map js [''constructor'', ''__defineGetter__'', ''__defineSetter__'', ''hasOwnProperty'',
       ''__lookupGetter__'', ''__lookupSetter__'', ''isPrototypeOf'', ''propertyIsEnumerable'',
       ''toString'', ''valueOf'', ''__proto__'', ''toLocaleString'']"

text \<open>\<open>k in obj\<close>\<close>

definition js_in :: "jsstring \<Rightarrow> (jsstring \<times> 'v) list \<Rightarrow> bool" where
  "js_in k obj \<longleftrightarrow> map_of obj k \<noteq> None \<or> k \<in> set object_prototype_names"

text \<open>
  The loop over the matchdays of one season. Each key of \<open>Object.keys\<close> is read back from
  the same object, so the loop visits the values of its properties in order. The map
  \<open>seasonStats\<close> holds the objects assigned to \<open>seasonStats[team]\<close>. Updating
  \<open>seasonStats[team]\<close> when it is \<open>undefined\<close> throws; when nothing was assigned and the
  name is inherited, the update goes to the inherited value and \<open>seasonStats\<close> keeps its
  properties.
\<close>

fun count_loop :: "matchday_form list \<Rightarrow> jsstring \<Rightarrow> stats \<Rightarrow> error + stats" where
  "count_loop [] team seasonStats = Inr seasonStats"
| "count_loop (m # ms) team seasonStats =
     (case score m of
        None \<Rightarrow> count_loop ms team seasonStats
      | Some sc \<Rightarrow>
          (case seasonStats team of
             None \<Rightarrow>
               (if team \<in> set object_prototype_names then count_loop ms team seasonStats
                else Inl TypeError)
           | Some st \<Rightarrow> count_loop ms team (seasonStats(team \<mapsto> count_match sc (atHome m) st))))"

text \<open>
  \<open>countOccurances\<close>: nothing when \<open>team in data.form\<close> is false. Otherwise
  \<open>data.form[team][season]\<close> is read: it is \<open>undefined\<close>, and \<open>Object.keys\<close> throws, when
  the form of the team has no such season, and also when \<open>data.form[team]\<close> is only an
  inherited value, which has no property named by a season.
\<close>

definition countOccurances :: "'s data \<Rightarrow> stats \<Rightarrow> jsstring \<Rightarrow> int \<Rightarrow> error + stats" where
  "countOccurances data' seasonStats team season =
     (if \<not> js_in team (form data') then Inr seasonStats
      else (case map_of (form data') team of
              None \<Rightarrow> Inl TypeError
            | Some seasons \<Rightarrow>
                (case map_of seasons season of
                   None \<Rightarrow> Inl TypeError
                 | Some days \<Rightarrow> count_loop (map snd days) team seasonStats)))"

definition zero_stats :: team_stats where
  "zero_stats = \<lparr>cleanSheetRatio = 0, noGoalRatio = 0, xC = 0, xG = 0, played = 0\<rparr>"

definition divide_stats :: "team_stats \<Rightarrow> team_stats" where
  "divide_stats st =
     (let st1 = st\<lparr>xG := xG st / played st\<rparr>;
          st2 = st1\<lparr>xC := xC st1 / played st1\<rparr>;
          st3 = st2\<lparr>cleanSheetRatio := cleanSheetRatio st2 / played st2\<rparr>
      in st3\<lparr>noGoalRatio := noGoalRatio st3 / played st3\<rparr>)"

text \<open>The loop of \<open>buildStats\<close> over the teams of \<open>data.standings\<close>.\<close>

fun build_loop :: "'s data \<Rightarrow> jsstring list \<Rightarrow> stats \<Rightarrow> error + stats" where
  "build_loop data' [] stats' = Inr stats'"
| "build_loop data' (team # teams) stats' =
     (let stats1 = stats'(team \<mapsto> zero_stats)
      in case countOccurances data' stats1 team (data_id data') of
           Inl e \<Rightarrow> Inl e
         | Inr stats2 \<Rightarrow>
             (case countOccurances data' stats2 team (data_id data' - 1) of
                Inl e \<Rightarrow> Inl e
              | Inr stats3 \<Rightarrow>
                  (case stats3 team of
                     None \<Rightarrow>
                       (if team \<in> set object_prototype_names then build_loop data' teams stats3
                        else Inl TypeError)
                   | Some st \<Rightarrow>
                       build_loop data' teams
                         (if played st > 0 then stats3(team \<mapsto> divide_stats st) else stats3))))"

definition buildStats :: "'s data \<Rightarrow> error + stats" where
  "buildStats data' = build_loop data' (map fst (standings data')) Map.empty"

text \<open>
  The words of the claim. The matches of a team over the seasons \<open>data._id\<close> and
  \<open>data._id - 1\<close>; a match is played when its score is not \<open>null\<close>; the goals the team
  conceded are the away goals at home and the home goals away.
\<close>

definition season_matches :: "'s data \<Rightarrow> jsstring \<Rightarrow> int \<Rightarrow> matchday_form list" where
  "season_matches data' team season =
     (case map_of (form data') team of
        None \<Rightarrow> []
      | Some seasons \<Rightarrow> (case map_of seasons season of None \<Rightarrow> [] | Some days \<Rightarrow> map snd days))"

definition played_matches :: "'s data \<Rightarrow> jsstring \<Rightarrow> matchday_form list" where
  "played_matches data' team =
     filter (\<lambda>m. score m \<noteq> None)
       (season_matches data' team (data_id data') @ season_matches data' team (data_id data' - 1))"

definition conceded_zero :: "matchday_form \<Rightarrow> bool" where
  "conceded_zero m =
     (case score m of
        None \<Rightarrow> False
      | Some sc \<Rightarrow> (if atHome m then awayGoals sc = 0 else homeGoals sc = 0))"

definition clean_sheet_ratio :: "'s data \<Rightarrow> jsstring \<Rightarrow> rat" where
  "clean_sheet_ratio data' team =
     (if length (played_matches data' team) > 0
      then of_nat (length (filter conceded_zero (played_matches data' team)))
           / of_nat (length (played_matches data' team))
      else 0)"

text \<open>
  The teams on which the two calls of \<open>countOccurances\<close> do not throw: a team with a form
  that has both seasons, or a team with no form whose name is not inherited from
  \<open>Object.prototype\<close>. \<open>seasons_present\<close> says so of every team of the standings.
\<close>

definition team_present :: "'s data \<Rightarrow> jsstring \<Rightarrow> bool" where
  "team_present data' team =
     (case map_of (form data') team of
        None \<Rightarrow> team \<notin> set object_prototype_names
      | Some seasons \<Rightarrow> map_of seasons (data_id data') \<noteq> None
          \<and> map_of seasons (data_id data' - 1) \<noteq> None)"

definition seasons_present :: "'s data \<Rightarrow> bool" where
  "seasons_present data' \<longleftrightarrow> list_all (team_present data') (map fst (standings data'))"

text \<open>The effect of the loop of \<open>countOccurances\<close> on the object of the team.\<close>

fun apply_matches :: "matchday_form list \<Rightarrow> team_stats \<Rightarrow> team_stats" where
  "apply_matches [] st = st"
| "apply_matches (m # ms) st =
     (case score m of
        None \<Rightarrow> apply_matches ms st
      | Some sc \<Rightarrow> apply_matches ms (count_match sc (atHome m) st))"

definition team_final :: "'s data \<Rightarrow> jsstring \<Rightarrow> team_stats" where
  "team_final data' team =
     (let st = apply_matches (season_matches data' team (data_id data' - 1))
                 (apply_matches (season_matches data' team (data_id data')) zero_stats)
      in if played st > 0 then divide_stats st else st)"

section \<open>Router: decodeURIComponent\<close>

text \<open>
  \<open>decodeURIComponent\<close> replaces every escape \<open>%XX\<close> by the character whose UTF-8 encoding
  the escaped bytes are, and throws a \<open>URIError\<close> on a \<open>%\<close> not followed by two hexadecimal
  digits and on bytes that are not the UTF-8 encoding of a code point.
\<close>

definition hex_value :: "16 word \<Rightarrow> nat option" where
  "hex_value c =
     (if 0x30 \<le> c \<and> c \<le> 0x39 then Some (unat c - 0x30)
      else if 0x41 \<le> c \<and> c \<le> 0x46 then Some (unat c - 0x41 + 10)
      else if 0x61 \<le> c \<and> c \<le> 0x66 then Some (unat c - 0x61 + 10)
      else None)"

definition hex_octet :: "16 word \<Rightarrow> 16 word \<Rightarrow> nat option" where
  "hex_octet a b =
     (case (hex_value a, hex_value b) of
        (Some x, Some y) \<Rightarrow> Some (16 * x + y)
      | _ \<Rightarrow> None)"

text \<open>The \<open>n\<close> continuation bytes \<open>%XX\<close>, each of the form \<open>10xxxxxx\<close>, and the rest.\<close>

fun continuation :: "nat \<Rightarrow> jsstring \<Rightarrow> (nat list \<times> jsstring) option" where
  "continuation 0 s = Some ([], s)"
| "continuation (Suc n) (c # h1 # h2 # rest) =
     (if c = 0x25 then
        (case hex_octet h1 h2 of
           None \<Rightarrow> None
         | Some b \<Rightarrow>
             (if 0x80 \<le> b \<and> b < 0xC0 then
                (case continuation n rest of
                   None \<Rightarrow> None
                 | Some (bs, r) \<Rightarrow> Some (b # bs, r))
              else None))
      else None)"
| "continuation (Suc n) s = None"

text \<open>
  The code point of a leading byte and its continuation bytes; none for an overlong
  encoding, a surrogate or a value above \<open>0x10FFFF\<close>.
\<close>

definition utf8_code_point :: "nat \<Rightarrow> nat list \<Rightarrow> nat option" where
  "utf8_code_point b bs =
     (case bs of
        [b1] \<Rightarrow>
          (let v = (b - 0xC0) * 64 + (b1 - 0x80)
           in if 0x80 \<le> v then Some v else None)
      | [b1, b2] \<Rightarrow>
          (let v = (b - 0xE0) * 4096 + (b1 - 0x80) * 64 + (b2 - 0x80)
           in if 0x800 \<le> v \<and> \<not> (0xD800 \<le> v \<and> v \<le> 0xDFFF) then Some v else None)
      | [b1, b2, b3] \<Rightarrow>
          (let v = (b - 0xF0) * 262144 + (b1 - 0x80) * 4096 + (b2 - 0x80) * 64 + (b3 - 0x80)
           in if 0x10000 \<le> v \<and> v \<le> 0x10FFFF then Some v else None)
      | _ \<Rightarrow> None)"

definition utf16_encode :: "nat \<Rightarrow> jsstring" where
  "utf16_encode v =
     (if v < 0x10000 then [of_nat v]
      else [of_nat (0xD800 + (v - 0x10000) div 1024), of_nat (0xDC00 + (v - 0x10000) mod 1024)])"

lemma continuation_length:
  "continuation n s = Some (bs, r) \<Longrightarrow> length r \<le> length s"
proof (induction n s arbitrary: bs r rule: continuation.induct)
  case (1 s)
  then show ?case by simp
next
  case (2 n c h1 h2 rest)
  then show ?case
    by (fastforce split: if_splits option.splits)
qed simp_all

function decodeURIComponent :: "jsstring \<Rightarrow> error + jsstring" where
  "decodeURIComponent [] = Inr []"
| "decodeURIComponent (c # cs) =
     (if c \<noteq> 0x25 then
        (case decodeURIComponent cs of Inl e \<Rightarrow> Inl e | Inr r \<Rightarrow> Inr (c # r))
      else
        (case cs of
           h1 # h2 # rest \<Rightarrow>
             (case hex_octet h1 h2 of
                None \<Rightarrow> Inl URIError
              | Some b \<Rightarrow>
                  (if b < 0x80 then
                     (case decodeURIComponent rest of
                        Inl e \<Rightarrow> Inl e
                      | Inr r \<Rightarrow> Inr (of_nat b # r))
                   else if b < 0xC0 \<or> 0xF8 \<le> b then Inl URIError
                   else
                     (case continuation (if b < 0xE0 then 1 else if b < 0xF0 then 2 else 3) rest of
                        None \<Rightarrow> Inl URIError
                      | Some (bs, rest') \<Rightarrow>
                          (case utf8_code_point b bs of
                             None \<Rightarrow> Inl URIError
                           | Some v \<Rightarrow>
                               (case decodeURIComponent rest' of
                                  Inl e \<Rightarrow> Inl e
                                | Inr r \<Rightarrow> Inr (utf16_encode v @ r))))))
         | _ \<Rightarrow> Inl URIError))"
  by pat_completeness auto
termination
  by (relation "measure length") (auto dest: continuation_length)

section \<open>Router: segments and ranking\<close>

text \<open>\<open>str.split(sep)\<close> for a separator of one character: never the empty array.\<close>

fun js_split :: "16 word \<Rightarrow> jsstring \<Rightarrow> jsstring list" where
  "js_split sep [] = [[]]"
| "js_split sep (c # cs) =
     (if c = sep then [] # js_split sep cs
      else (case js_split sep cs of
              [] \<Rightarrow> [[c]]
            | s # ss \<Rightarrow> (c # s) # ss))"

text \<open>\<open>arr.join("/")\<close>\<close>

fun js_join :: "jsstring list \<Rightarrow> jsstring" where
  "js_join [] = []"
| "js_join [s] = s"
| "js_join (s # t # ss) = s @ 0x2F # js_join (t # ss)"

text \<open>
  \<open>str.replace(/(^\/+|\/+$)/g, "")\<close>: the slashes at the start and those at the end go.
\<close>

definition stripSlashes :: "jsstring \<Rightarrow> jsstring" where
  "stripSlashes str = rev (dropWhile (\<lambda>c. c = 0x2F) (rev (dropWhile (\<lambda>c. c = 0x2F) str)))"

definition segmentize :: "jsstring \<Rightarrow> jsstring list" where
  "segmentize uri = js_split 0x2F (stripSlashes uri)"

definition SEGMENT_POINTS :: int where "SEGMENT_POINTS = 4"
definition STATIC_POINTS :: int where "STATIC_POINTS = 3"
definition DYNAMIC_POINTS :: int where "DYNAMIC_POINTS = 2"
definition SPLAT_PENALTY :: int where "SPLAT_PENALTY = 1"
definition ROOT_POINTS :: int where "ROOT_POINTS = 1"

definition isRootSegment :: "jsstring \<Rightarrow> bool" where
  "isRootSegment segment \<longleftrightarrow> segment = []"

text \<open>
  \<open>paramRe = /^:(.+)/\<close>: a colon and then at least one character that is not a line
  terminator; the group is the longest run of such characters. \<open>exec\<close> gives the group.
\<close>

definition line_terminator :: "16 word \<Rightarrow> bool" where
  "line_terminator c \<longleftrightarrow> c = 0x0A \<or> c = 0x0D \<or> c = 0x2028 \<or> c = 0x2029"

definition paramRe_exec :: "jsstring \<Rightarrow> jsstring option" where
  "paramRe_exec segment =
     (case segment of
        c # d # ds \<Rightarrow>
          (if c = 0x3A \<and> \<not> line_terminator d
           then Some (takeWhile (\<lambda>x. \<not> line_terminator x) (d # ds)) else None)
      | _ \<Rightarrow> None)"

definition isDynamic :: "jsstring \<Rightarrow> bool" where
  "isDynamic segment \<longleftrightarrow> paramRe_exec segment \<noteq> None"

definition isSplat :: "jsstring \<Rightarrow> bool" where
  "isSplat segment \<longleftrightarrow> (case segment of [] \<Rightarrow> False | c # cs \<Rightarrow> c = 0x2A)"

text \<open>A route \<open>{ path, default, value }\<close>.\<close>

record 'v route =
  path :: jsstring
  is_default :: bool
  route_value :: 'v

text \<open>The object \<open>{ route, score, index }\<close> of \<open>rankRoute\<close>; its score is the field \<open>rscore\<close>.\<close>

record 'v ranked =
  route :: "'v route"
  rscore :: int
  index :: int

definition rankRoute :: "'v route \<Rightarrow> int \<Rightarrow> 'v ranked" where
  "rankRoute route' index' =
     (let score' =
        (if is_default route' then 0
         else fold (\<lambda>segment score'.
                (let score' = score' + SEGMENT_POINTS
                 in if isRootSegment segment then score' + ROOT_POINTS
                    else if isDynamic segment then score' + DYNAMIC_POINTS
                    else if isSplat segment then score' - (SEGMENT_POINTS + SPLAT_PENALTY)
                    else score' + STATIC_POINTS))
              (segmentize (path route')) 0)
      in \<lparr>route = route', rscore = score', index = index'\<rparr>)"

text \<open>The comparison function given to \<open>sort\<close>.\<close>

definition compare_ranked :: "'v ranked \<Rightarrow> 'v ranked \<Rightarrow> int" where
  "compare_ranked a b =
     (if rscore a < rscore b then 1 else if rscore a > rscore b then - 1 else index a - index b)"

text \<open>
  \<open>Array.prototype.sort\<close> with this function, which orders the elements totally: the result
  is the arrangement in which no element is followed by one that compares lower. It is
  computed here by insertion.
\<close>

fun insert_ranked :: "'v ranked \<Rightarrow> 'v ranked list \<Rightarrow> 'v ranked list" where
  "insert_ranked x [] = [x]"
| "insert_ranked x (y # ys) =
     (if compare_ranked x y \<le> 0 then x # y # ys else y # insert_ranked x ys)"

definition sort_ranked :: "'v ranked list \<Rightarrow> 'v ranked list" where
  "sort_ranked xs = foldr insert_ranked xs []"

text \<open>\<open>routes.map(rankRoute)\<close> passes every route with its index.\<close>

fun map_index :: "('a \<Rightarrow> int \<Rightarrow> 'b) \<Rightarrow> 'a list \<Rightarrow> int \<Rightarrow> 'b list" where
  "map_index f [] k = []"
| "map_index f (x # xs) k = f x k # map_index f xs (k + 1)"

definition rankRoutes :: "'v route list \<Rightarrow> 'v ranked list" where
  "rankRoutes routes = sort_ranked (map_index rankRoute routes 0)"

section \<open>Router: pick\<close>

text \<open>\<open>arr[i]\<close> for an index \<open>i \<ge> 0\<close>: \<open>undefined\<close> (here \<open>None\<close>) out of range.\<close>

definition js_nth :: "'a list \<Rightarrow> nat \<Rightarrow> 'a option" where
  "js_nth xs i = (if i < length xs then Some (xs ! i) else None)"

text \<open>
  The object \<open>params\<close>, as the map from the names of its own properties to their values.
  \<open>params[k] = v\<close> sets the property \<open>k\<close>, except for the name \<open>__proto__\<close>: there the
  assignment goes to the setter inherited from \<open>Object.prototype\<close>, which ignores a string,
  and no property is made.
\<close>

type_synonym params = "jsstring \<rightharpoonup> jsstring"

definition obj_set :: "params \<Rightarrow> jsstring \<Rightarrow> jsstring \<Rightarrow> params" where
  "obj_set ps k v = (if k = js ''__proto__'' then ps else ps(k \<mapsto> v))"

text \<open>\<open>segments.map(decodeURIComponent)\<close>: the first segment that does not decode throws.\<close>

fun decode_all :: "jsstring list \<Rightarrow> error + jsstring list" where
  "decode_all [] = Inr []"
| "decode_all (s # ss) =
     (case decodeURIComponent s of
        Inl e \<Rightarrow> Inl e
      | Inr d \<Rightarrow> (case decode_all ss of Inl e \<Rightarrow> Inl e | Inr ds \<Rightarrow> Inr (d # ds)))"

text \<open>A match \<open>{ route, params, uri }\<close>.\<close>

record 'v match =
  match_route :: "'v route"
  params :: params
  match_uri :: jsstring

text \<open>
  The inner loop of \<open>pick\<close> over the segments, from \<open>index\<close> on. It gives \<open>missed\<close>, \<open>params\<close>
  and the \<open>index\<close> at which it stopped. \<open>paramRe.exec(undefined)\<close> is applied to the string
  "undefined".
\<close>

function match_segments ::
  "jsstring list \<Rightarrow> jsstring list \<Rightarrow> bool \<Rightarrow> nat \<Rightarrow> nat \<Rightarrow> params
     \<Rightarrow> error + (bool \<times> params \<times> nat)" where
  "match_segments routeSegments uriSegments isRootUri max' index' params' =
     (if index' < max' then
        (let routeSegment = js_nth routeSegments index';
             uriSegment = js_nth uriSegments index'
         in case (case routeSegment of
                    None \<Rightarrow> None
                  | Some rs \<Rightarrow> if isSplat rs then Some rs else None) of
              Some rs \<Rightarrow>
                (let splatName = (if rs = js ''*'' then js ''*'' else drop 1 rs)
                 in case decode_all (drop index' uriSegments) of
                      Inl e \<Rightarrow> Inl e
                    | Inr ds \<Rightarrow> Inr (False, obj_set params' splatName (js_join ds), index'))
            | None \<Rightarrow>
                (case uriSegment of
                   None \<Rightarrow> Inr (True, params', index')
                 | Some us \<Rightarrow>
                     (let dynamicMatch =
                        paramRe_exec (case routeSegment of
                                        None \<Rightarrow> js ''undefined''
                                      | Some rs \<Rightarrow> rs)
                      in case (if isRootUri then None else dynamicMatch) of
                           Some name \<Rightarrow>
                             (case decodeURIComponent us of
                                Inl e \<Rightarrow> Inl e
                              | Inr v \<Rightarrow>
                                  match_segments routeSegments uriSegments isRootUri max'
                                    (index' + 1) (obj_set params' name v))
                         | None \<Rightarrow>
                             (if routeSegment \<noteq> uriSegment then Inr (True, params', index')
                              else match_segments routeSegments uriSegments isRootUri max'
                                     (index' + 1) params'))))
      else Inr (False, params', index'))"
  by pat_completeness auto
termination
  by (relation "measure (\<lambda>(rs, us, root, max', index', ps). max' - index')") auto

declare match_segments.simps [simp del]

text \<open>The body of the outer loop for a route that is not the default one.\<close>

definition try_route :: "'v route \<Rightarrow> jsstring list \<Rightarrow> bool \<Rightarrow> error + 'v match option" where
  "try_route route' uriSegments isRootUri =
     (let routeSegments = segmentize (path route');
          max' = max (length uriSegments) (length routeSegments)
      in case match_segments routeSegments uriSegments isRootUri max' 0 Map.empty of
           Inl e \<Rightarrow> Inl e
         | Inr (missed, params', index') \<Rightarrow>
             (if \<not> missed
              then Inr (Some \<lparr>match_route = route', params = params',
                     match_uri = 0x2F # js_join (take index' uriSegments)\<rparr>)
              else Inr None))"

text \<open>The outer loop over the ranked routes: it gives \<open>match\<close> and \<open>default_\<close>.\<close>

fun pick_loop ::
  "'v ranked list \<Rightarrow> jsstring \<Rightarrow> jsstring list \<Rightarrow> bool \<Rightarrow> 'v match option
     \<Rightarrow> error + ('v match option \<times> 'v match option)" where
  "pick_loop [] uri uriSegments isRootUri default' = Inr (None, default')"
| "pick_loop (r # rs) uri uriSegments isRootUri default' =
     (if is_default (route r)
      then pick_loop rs uri uriSegments isRootUri
             (Some \<lparr>match_route = route r, params = Map.empty, match_uri = uri\<rparr>)
      else (case try_route (route r) uriSegments isRootUri of
              Inl e \<Rightarrow> Inl e
            | Inr (Some m) \<Rightarrow> Inr (Some m, default')
            | Inr None \<Rightarrow> pick_loop rs uri uriSegments isRootUri default'))"

definition uri_segments :: "jsstring \<Rightarrow> jsstring list" where
  "uri_segments uri = segmentize (case js_split 0x3F uri of [] \<Rightarrow> [] | p # ps \<Rightarrow> p)"

text \<open>\<open>pick(routes, uri)\<close>; \<open>null\<close> is \<open>None\<close>.\<close>

definition pick :: "'v route list \<Rightarrow> jsstring \<Rightarrow> error + 'v match option" where
  "pick routes uri =
     (let uriSegments = uri_segments uri;
          isRootUri = (js_nth uriSegments 0 = Some []);
          ranked = rankRoutes routes
      in case pick_loop ranked uri uriSegments isRootUri None of
           Inl e \<Rightarrow> Inl e
         | Inr (match', default') \<Rightarrow>
             Inr (case match' of Some m \<Rightarrow> Some m | None \<Rightarrow> default'))"

text \<open>
  The words of the claim: the score of a route is the sum over its segments of 4 points and
  1 more for the root segment, 2 for a dynamic one, 3 for a static one, and 5 less for a
  splat; a default route has score 0. A route that is not the default matches the URI when
  the loop over its segments ends without a miss.
\<close>

definition segment_points :: "jsstring \<Rightarrow> int" where
  "segment_points segment =
     4 + (if segment = [] then 1 else if isDynamic segment then 2
          else if isSplat segment then - 5 else 3)"

definition route_points :: "'v route \<Rightarrow> int" where
  "route_points route' =
     (if is_default route' then 0 else sum_list (map segment_points (segmentize (path route'))))"

definition route_match :: "'v route \<Rightarrow> jsstring \<Rightarrow> 'v match option" where
  "route_match route' uri =
     (case try_route route' (uri_segments uri) (js_nth (uri_segments uri) 0 = Some []) of
        Inl e \<Rightarrow> None
      | Inr r \<Rightarrow> r)"

definition decodes :: "jsstring \<Rightarrow> bool" where
  "decodes s \<longleftrightarrow> \<not> isl (decodeURIComponent s)"

definition le_ranked :: "'v ranked \<Rightarrow> 'v ranked \<Rightarrow> bool" where
  "le_ranked a b \<longleftrightarrow> compare_ranked a b \<le> 0"

section \<open>Dashboard: initDashboard and switchTeam\<close>

text \<open>
  What the page does to the world outside its variables, in order: a network request, a
  change of the history or of the location, the log of the data, the resize event.
\<close>

datatype effect =
    Fetch jsstring
  | PushState jsstring
  | SetLocation jsstring
  | ConsoleLog
  | DispatchEvent jsstring

fun is_Fetch :: "effect \<Rightarrow> bool" where
  "is_Fetch (Fetch url) = True"
| "is_Fetch e = False"

text \<open>
  The variables of the Dashboard component; \<open>undefined\<close> and \<open>null\<close> are \<open>None\<close>. The trace
  \<open>effects\<close> is added to them. \<open>currentMatchday1\<close> is the variable \<open>currentMatchday$1\<close>.
\<close>

record ('s, 'd) dashboard =
  hyphenatedTeam :: "jsstring option"
  team :: "jsstring option"
  title :: jsstring
  teams :: "jsstring list"
  currentMatchday1 :: "jsstring option"
  playedDates :: "'d option"
  data :: "'s data option"
  effects :: "effect list"

definition initial_dashboard :: "jsstring option \<Rightarrow> ('s, 'd) dashboard" where
  "initial_dashboard prop =
     \<lparr>hyphenatedTeam = prop, team = Some [], title = js ''Dashboard'', teams = [],
      currentMatchday1 = None, playedDates = None, data = None, effects = []\<rparr>"

text \<open>
  Helpers of the page whose results the properties below do not depend on are parameters:
  the two name conversions, the dates computed by \<open>playedMatchdayDates\<close> (which may throw),
  and \<open>window.location.href\<close>.
\<close>

record ('s, 'd) env =
  toTitleCase :: "jsstring \<Rightarrow> jsstring"
  toHyphenatedName :: "jsstring \<Rightarrow> jsstring"
  playedMatchdayDates :: "'s data \<Rightarrow> jsstring \<Rightarrow> error + 'd"
  href :: jsstring

text \<open>
  How the one request of the page ends: \<open>fetch\<close> is rejected, or \<open>response.json()\<close> is
  rejected, or the body parses to the data object.
\<close>

datatype 's response = FetchRejected | JsonRejected | Json "'s data"

text \<open>
  \<open>currentMatchday(data, team)\<close>: the last matchday of the season with a score, \<open>null\<close> if
  there is none; it throws when the team or the season is absent from \<open>data.form\<close>.
\<close>

definition currentMatchday :: "'s data \<Rightarrow> jsstring \<Rightarrow> error + jsstring option" where
  "currentMatchday data' team' =
     (case map_of (form data') team' of
        None \<Rightarrow> Inl TypeError
      | Some seasons \<Rightarrow>
          (case map_of seasons (data_id data') of
             None \<Rightarrow> Inl TypeError
           | Some days \<Rightarrow>
               Inr (case filter (\<lambda>(matchday, m). score m \<noteq> None) (rev days) of
                      [] \<Rightarrow> None
                    | (matchday, m) # rest \<Rightarrow> Some matchday)))"

text \<open>\<open>str.replace(/\-/g, " ")\<close>\<close>

definition replace_hyphens :: "jsstring \<Rightarrow> jsstring" where
  "replace_hyphens str = map (\<lambda>c. if c = 0x2D then 0x20 else c) str"

text \<open>The string of a value in a template literal: "undefined" for \<open>undefined\<close>.\<close>

definition template_string :: "jsstring option \<Rightarrow> jsstring" where
  "template_string v = (case v of None \<Rightarrow> js ''undefined'' | Some s \<Rightarrow> s)"

definition teams_endpoint :: jsstring where
  "teams_endpoint = js ''https://pldashboard-backend.vercel.app/api/teams''"

text \<open>
  The two statements that set \<open>currentMatchday$1\<close> and \<open>playedDates\<close> from the data; with
  no data, reading \<open>data.form\<close> throws.
\<close>

definition set_matchday ::
  "('s, 'd) env \<Rightarrow> 's data option \<Rightarrow> jsstring \<Rightarrow> ('s, 'd) dashboard
     \<Rightarrow> error \<times> ('s, 'd) dashboard + ('s, 'd) dashboard" where
  "set_matchday env' json team' s =
     (case json of
        None \<Rightarrow> Inl (TypeError, s)
      | Some d \<Rightarrow>
          (case currentMatchday d team' of
             Inl e \<Rightarrow> Inl (e, s)
           | Inr m \<Rightarrow>
               (let s1 = s\<lparr>currentMatchday1 := m\<rparr>
                in case playedMatchdayDates env' d team' of
                     Inl e \<Rightarrow> Inl (e, s1)
                   | Inr dates \<Rightarrow> Inr (s1\<lparr>playedDates := Some dates\<rparr>))))"

text \<open>
  The first statement of \<open>initDashboard\<close>: the name and the title of the page are set
  before the request, so that the header can show while the data is fetched.
\<close>

definition init_header :: "('s, 'd) env \<Rightarrow> ('s, 'd) dashboard \<Rightarrow> ('s, 'd) dashboard" where
  "init_header env' s =
     (if hyphenatedTeam s = Some (js ''overview'')
      then s\<lparr>team := Some (js ''Overview''),
             title := js ''Dashboard | '' @ js ''Overview'',
             hyphenatedTeam := Some (js ''overview'')\<rparr>
      else (case hyphenatedTeam s of
              None \<Rightarrow> s
            | Some h \<Rightarrow>
                (let t = toTitleCase env' (replace_hyphens h)
                 in s\<lparr>team := Some t, title := js ''Dashboard | '' @ t\<rparr>)))"

text \<open>
  The statement after \<open>teams\<close> is set: at the root the team is the current leader and the
  URL changes to its name, where \<open>toHyphenatedName(undefined)\<close> throws; a team that is not
  in \<open>teams\<close> sends the browser to \<open>/error\<close>.
\<close>

definition init_team ::
  "('s, 'd) env \<Rightarrow> ('s, 'd) dashboard \<Rightarrow> error \<times> ('s, 'd) dashboard + ('s, 'd) dashboard" where
  "init_team env' s3 =
     (if hyphenatedTeam s3 = None then
        (let s4 = s3\<lparr>team := js_nth (teams s3) 0\<rparr>;
             s5 = s4\<lparr>title := js ''Dashboard | '' @ template_string (team s4)\<rparr>
         in case team s5 of
              None \<Rightarrow> Inl (TypeError, s5)
            | Some t \<Rightarrow>
                (let s6 = s5\<lparr>hyphenatedTeam := Some (toHyphenatedName env' t)\<rparr>
                 in Inr (s6\<lparr>effects := effects s6
                           @ [PushState (href env' @ toHyphenatedName env' t)]\<rparr>)))
      else if team s3 \<noteq> Some (js ''Overview'')
              \<and> (case team s3 of None \<Rightarrow> True | Some t \<Rightarrow> t \<notin> set (teams s3))
      then Inr (s3\<lparr>effects := effects s3 @ [SetLocation (js ''/error'')]\<rparr>)
      else Inr s3)"

text \<open>
  \<open>initDashboard\<close>, given how the request ends. The result is the error the promise of the
  function is rejected with, if any, and the variables at that point.
\<close>

definition initDashboard ::
  "('s, 'd) env \<Rightarrow> 's response \<Rightarrow> ('s, 'd) dashboard \<Rightarrow> error option \<times> ('s, 'd) dashboard"
  where
  "initDashboard env' response' s =
     (let s1 = init_header env' s;
          s2 = s1\<lparr>effects := effects s1 @ [Fetch teams_endpoint]\<rparr>
      in case response' of
           FetchRejected \<Rightarrow> (Some FetchError, s2)
         | JsonRejected \<Rightarrow> (Some SyntaxError, s2)
         | Json json \<Rightarrow>
             (let s3 = s2\<lparr>teams := map fst (standings json)\<rparr>
              in case init_team env' s3 of
                   Inl (e, s') \<Rightarrow> (Some e, s')
                 | Inr s7 \<Rightarrow>
                     (case (if team s7 \<noteq> Some (js ''Overview'')
                            then set_matchday env' (Some json) (template_string (team s7)) s7
                            else Inr s7) of
                        Inl (e, s') \<Rightarrow> (Some e, s')
                      | Inr s8 \<Rightarrow>
                          (None, s8\<lparr>data := Some json,
                                    effects := effects s8
                                      @ [ConsoleLog, DispatchEvent (js ''resize'')]\<rparr>))))"

text \<open>\<open>switchTeam(newTeam)\<close>, called from the navigation.\<close>

definition switchTeam ::
  "('s, 'd) env \<Rightarrow> jsstring \<Rightarrow> ('s, 'd) dashboard \<Rightarrow> error option \<times> ('s, 'd) dashboard" where
  "switchTeam env' newTeam s =
     (let s1 = s\<lparr>hyphenatedTeam := Some newTeam\<rparr>
      in case (if newTeam = js ''overview''
               then Inr (s1\<lparr>team := Some (js ''Overview''),
                           title := js ''Dashboard | '' @ js ''Overview''\<rparr>)
               else (let t = toTitleCase env' (replace_hyphens newTeam);
                         s2 = s1\<lparr>team := Some t, title := js ''Dashboard | '' @ t\<rparr>
                     in set_matchday env' (data s2) t s2)) of
           Inl (e, s') \<Rightarrow> (Some e, s')
         | Inr s3 \<Rightarrow> (None, s3\<lparr>effects := effects s3 @ [PushState newTeam]\<rparr>))"

text \<open>
  The page shows the loading spinner, and nothing of the data, exactly when \<open>data\<close> is
  \<open>undefined\<close>. After the page has loaded, the events that run code of the component are
  the calls of \<open>switchTeam\<close>.
\<close>

definition loading_spinner :: "('s, 'd) dashboard \<Rightarrow> bool" where
  "loading_spinner s \<longleftrightarrow> data s = None"

datatype page_event = SwitchTeam jsstring

fun run_events :: "('s, 'd) env \<Rightarrow> page_event list \<Rightarrow> ('s, 'd) dashboard \<Rightarrow> ('s, 'd) dashboard" where
  "run_events env' [] s = s"
| "run_events env' (SwitchTeam newTeam # evs) s = run_events env' evs (snd (switchTeam env' newTeam s))"

section \<open>Predictions: sortByDate and insertExtras\<close>

text \<open>
  The array fetched by the Predictions page: one object per day with its \<open>_id\<close>, a date,
  and its \<open>predictions\<close>; a prediction has a \<open>datetime\<close>, the predicted score (not whole
  numbers), the \<open>actual\<close> score or \<open>null\<close>, and whatever else the API sends, here \<open>other\<close>.
  The property \<open>colour\<close> is absent (\<open>None\<close>) in what is fetched.
\<close>

record 'x prediction =
  datetime :: jsstring
  prediction :: "rat score"
  actual :: "int score option"
  colour :: "jsstring option"
  other :: 'x

record 'x day =
  day_id :: jsstring
  predictions :: "'x prediction list"

text \<open>\<open>Math.round\<close>: the nearest integer, a half going up.\<close>

definition math_round :: "rat \<Rightarrow> int" where
  "math_round x = \<lfloor>x + 1 / 2\<rfloor>"

definition identicalScore :: "rat score \<Rightarrow> int score \<Rightarrow> bool" where
  "identicalScore prediction' actual' \<longleftrightarrow>
     math_round (homeGoals prediction') = homeGoals actual'
     \<and> math_round (awayGoals prediction') = awayGoals actual'"

definition sameResult :: "rat score \<Rightarrow> int score \<Rightarrow> bool" where
  "sameResult prediction' actual' \<longleftrightarrow>
     (math_round (homeGoals prediction') > math_round (awayGoals prediction')
        \<and> math_round (of_int (homeGoals actual')) > math_round (of_int (awayGoals actual')))
     \<or> (math_round (homeGoals prediction') = math_round (awayGoals prediction')
        \<and> math_round (of_int (homeGoals actual')) = math_round (of_int (awayGoals actual')))
     \<or> (math_round (homeGoals prediction') < math_round (awayGoals prediction')
        \<and> math_round (of_int (homeGoals actual')) < math_round (of_int (awayGoals actual')))"

text \<open>
  \<open>arr.sort(compare)\<close> sorts the array in place and is stable; with a comparison that
  orders the elements consistently the result is the one insertion computes. The time value
  of \<open>new Date(string)\<close>, for the valid dates the API sends, is the parameter \<open>time_value\<close>.
\<close>

fun insert_by :: "('a \<Rightarrow> 'a \<Rightarrow> int) \<Rightarrow> 'a \<Rightarrow> 'a list \<Rightarrow> 'a list" where
  "insert_by compare x [] = [x]"
| "insert_by compare x (y # ys) =
     (if compare x y \<le> 0 then x # y # ys else y # insert_by compare x ys)"

definition sort_by :: "('a \<Rightarrow> 'a \<Rightarrow> int) \<Rightarrow> 'a list \<Rightarrow> 'a list" where
  "sort_by compare xs = foldr (insert_by compare) xs []"

text \<open>
  \<open>sortByDate(predictions)\<close> returns nothing: its result here is the array after the call.
\<close>

definition sortByDate :: "(jsstring \<Rightarrow> int) \<Rightarrow> 'x day list \<Rightarrow> 'x day list" where
  "sortByDate time_value predictions' =
     (let sorted = sort_by (\<lambda>a b. time_value (day_id b) - time_value (day_id a)) predictions'
      in map (\<lambda>d. d\<lparr>predictions :=
                sort_by (\<lambda>a b. time_value (datetime a) - time_value (datetime b))
                  (predictions d)\<rparr>) sorted)"

text \<open>
  The quotient of two counts as a JavaScript number: \<open>0 / 0\<close> is \<open>NaN\<close>.
\<close>

definition js_divide :: "nat \<Rightarrow> nat \<Rightarrow> jsnum" where
  "js_divide a b =
     (if b = 0 then (if a = 0 then NaN else PosInfinity) else Finite (of_nat a / of_nat b))"

record accuracy =
  scoreAccuracy :: jsnum
  resultAccuracy :: jsnum

text \<open>The object \<open>{ predictions: json }\<close>, to which \<open>insertExtras\<close> adds \<open>accuracy\<close>.\<close>

record 'x predictions_json =
  predictions_of :: "'x day list"
  accuracy :: "accuracy option"

text \<open>The counters \<open>scoreCorrect\<close>, \<open>resultCorrect\<close> and \<open>total\<close>.\<close>

record counters =
  scoreCorrect :: nat
  resultCorrect :: nat
  total :: nat

text \<open>The body of the inner loop of \<open>insertExtras\<close>, on one prediction.\<close>

definition insert_colour :: "'x prediction \<Rightarrow> counters \<Rightarrow> 'x prediction \<times> counters" where
  "insert_colour p c =
     (case actual p of
        None \<Rightarrow> (p, c)
      | Some a \<Rightarrow>
          (let (p1, c1) =
             (if identicalScore (prediction p) a
              then (p\<lparr>colour := Some (js ''green'')\<rparr>,
                    c\<lparr>scoreCorrect := scoreCorrect c + 1, resultCorrect := resultCorrect c + 1\<rparr>)
              else if sameResult (prediction p) a
              then (p\<lparr>colour := Some (js ''yellow'')\<rparr>, c\<lparr>resultCorrect := resultCorrect c + 1\<rparr>)
              else (p\<lparr>colour := Some (js ''red'')\<rparr>, c))
           in (p1, c1\<lparr>total := total c1 + 1\<rparr>)))"

text \<open>The inner loop, over the predictions of a day, and the outer loop, over the days.\<close>

fun insert_day :: "'x prediction list \<Rightarrow> counters \<Rightarrow> 'x prediction list \<times> counters" where
  "insert_day [] c = ([], c)"
| "insert_day (p # ps) c =
     (let (p', c1) = insert_colour p c;
          (ps', c2) = insert_day ps c1
      in (p' # ps', c2))"

fun insert_days :: "'x day list \<Rightarrow> counters \<Rightarrow> 'x day list \<times> counters" where
  "insert_days [] c = ([], c)"
| "insert_days (d # ds) c =
     (let (ps', c1) = insert_day (predictions d) c;
          (ds', c2) = insert_days ds c1
      in (d\<lparr>predictions := ps'\<rparr> # ds', c2))"

definition insertExtras :: "'x predictions_json \<Rightarrow> 'x predictions_json" where
  "insertExtras json =
     (let (ds', c) = insert_days (predictions_of json)
                       \<lparr>scoreCorrect = 0, resultCorrect = 0, total = 0\<rparr>
      in json\<lparr>predictions_of := ds',
              accuracy := Some \<lparr>scoreAccuracy = js_divide (scoreCorrect c) (total c),
                                resultAccuracy = js_divide (resultCorrect c) (total c)\<rparr>\<rparr>)"

text \<open>
  What the page does with the fetched array \<open>json\<close>: \<open>sortByDate(json)\<close>, then
  \<open>json = { predictions: json }\<close>, then \<open>insertExtras(json)\<close>. The fetched array after it is
  \<open>predictions_of\<close> of the result.
\<close>

definition process_predictions ::
  "(jsstring \<Rightarrow> int) \<Rightarrow> 'x day list \<Rightarrow> 'x predictions_json" where
  "process_predictions time_value fetched =
     insertExtras \<lparr>predictions_of = sortByDate time_value fetched, accuracy = None\<rparr>"

text \<open>
  The colour of a prediction against its actual score, and a prediction with its colour set
  when it has an actual score: what the loops of \<open>insertExtras\<close> are compared with.
\<close>

definition verdict :: "rat score \<Rightarrow> int score \<Rightarrow> jsstring" where
  "verdict prediction' actual' =
     (if identicalScore prediction' actual' then js ''green''
      else if sameResult prediction' actual' then js ''yellow'' else js ''red'')"

definition with_colour :: "'x prediction \<Rightarrow> 'x prediction" where
  "with_colour p =
     (case actual p of None \<Rightarrow> p | Some a \<Rightarrow> p\<lparr>colour := Some (verdict (prediction p) a)\<rparr>)"

section \<open>Overview: the loop of standingsTable\<close>

text \<open>
  An entry \<open>data.standings[team][season]\<close>, an object: its \<open>position\<close>, whatever else the API
  sends (\<open>rest\<close>), and the property \<open>team\<close>, here \<open>standing_team\<close>, absent (\<open>None\<close>) in what is
  fetched. \<open>Object(undefined)\<close> is a new object with no property.
\<close>

record 'y standing =
  position :: "int option"
  standing_team :: "jsstring option"
  rest :: "'y option"

definition empty_object :: "'y standing" where
  "empty_object = \<lparr>position = None, standing_team = None, rest = None\<rparr>"

text \<open>Changing in place the value of the property \<open>k\<close> of an object that has it.\<close>

fun update_entry :: "'k \<Rightarrow> ('v \<Rightarrow> 'v) \<Rightarrow> ('k \<times> 'v) list \<Rightarrow> ('k \<times> 'v) list" where
  "update_entry k f [] = []"
| "update_entry k f ((k', v) # ps) =
     (if k' = k then (k', f v) # ps else (k', v) # update_entry k f ps)"

text \<open>
  The loop of \<open>standingsTable\<close> over the teams of \<open>data.standings\<close>. \<open>Object(x)\<close> is \<open>x\<close> itself
  when \<open>x\<close> is an object, so \<open>row.team = team\<close> writes into the entry of the fetched data.
  The loop gives the rows it pushes, in the order of the loop, and \<open>data.standings\<close> after it.
  The function then sorts the array of the rows, which changes no object of the data.
\<close>

fun standings_loop ::
  "(jsstring \<times> (int \<times> 'y standing) list) list \<Rightarrow> int
     \<Rightarrow> 'y standing list \<times> (jsstring \<times> (int \<times> 'y standing) list) list" where
  "standings_loop [] season = ([], [])"
| "standings_loop ((team', seasons) # others) season =
     (let row = (case map_of seasons season of None \<Rightarrow> empty_object | Some entry \<Rightarrow> entry);
          row' = row\<lparr>standing_team := Some team'\<rparr>;
          seasons' = update_entry season (\<lambda>entry. entry\<lparr>standing_team := Some team'\<rparr>) seasons;
          (rows, others') = standings_loop others season
      in (row' # rows, (team', seasons') # others'))"

section \<open>Properties of ordinal\<close>

lemma js_rem_nonneg: "0 \<le> a \<Longrightarrow> 0 < b \<Longrightarrow> js_rem a b = a mod b"
  by (cases "a = 0") (simp_all add: js_rem_def)

lemma js_index_ord:
  "js_index ord k =
     (if k = 1 then Some (js ''st'') else if k = 2 then Some (js ''nd'')
      else if k = 3 then Some (js ''rd'') else None)"
proof -
  have "k < 0 \<or> k = 0 \<or> k = 1 \<or> k = 2 \<or> k = 3 \<or> 4 \<le> k" by arith
  then show ?thesis
    by (elim disjE) (simp_all add: js_index_def ord_def)
qed

lemma ordinal_unfold:
  assumes "0 \<le> n"
  shows "ordinal n =
     (let a = n mod 100; k = (if a > 20 then a mod 10 else a)
      in if k = 1 then js ''st'' else if k = 2 then js ''nd''
         else if k = 3 then js ''rd'' else js ''th'')"
proof -
  have a: "js_rem n 100 = n mod 100" using assms by (simp add: js_rem_nonneg)
  have b: "js_rem (n mod 100) 10 = n mod 100 mod 10" by (simp add: js_rem_nonneg)
  show ?thesis
    unfolding ordinal_def a Let_def js_index_ord
    by (simp add: b)
qed

text \<open>
  Claim C10. For every non-negative integer \<open>n\<close>, \<open>ordinal n\<close> is "st", "nd" or "rd" when
  the last digit of \<open>n\<close> is 1, 2 or 3 and \<open>n mod 100\<close> is not 11, 12 or 13, and "th" in
  every other case; in particular it is "th" whenever \<open>n mod 100\<close> lies between 4 and 20.
\<close>

theorem ordinal_suffix:
  assumes "0 \<le> n"
  shows "ordinal n =
      (if n mod 10 = 1 \<and> n mod 100 \<notin> {11, 12, 13} then js ''st''
       else if n mod 10 = 2 \<and> n mod 100 \<notin> {11, 12, 13} then js ''nd''
       else if n mod 10 = 3 \<and> n mod 100 \<notin> {11, 12, 13} then js ''rd''
       else js ''th'')
    \<and> (4 \<le> n mod 100 \<and> n mod 100 \<le> 20 \<longrightarrow> ordinal n = js ''th'')"
proof -
  define a where "a = n mod 100"
  have m: "n mod 10 = a mod 10"
    unfolding a_def by (simp add: mod_mod_cancel)
  have r: "0 \<le> a" "a < 100" unfolding a_def by simp_all
  have u: "ordinal n =
     (let k = (if a > 20 then a mod 10 else a)
      in if k = 1 then js ''st'' else if k = 2 then js ''nd''
         else if k = 3 then js ''rd'' else js ''th'')"
    using ordinal_unfold [OF assms] by (simp add: a_def Let_def)
  show ?thesis
  proof (cases "a > 20")
    case True
    have "a mod 10 = 1 \<longrightarrow> a \<noteq> 11" "a mod 10 = 2 \<longrightarrow> a \<noteq> 12" "a mod 10 = 3 \<longrightarrow> a \<noteq> 13"
      using True by auto
    moreover have "a \<noteq> 11" "a \<noteq> 12" "a \<noteq> 13" using True by auto
    ultimately show ?thesis
      using True unfolding u m a_def [symmetric] by (simp add: Let_def)
  next
    case False
    then have s: "a \<le> 20" by simp
    have e1: "a = 1 \<longleftrightarrow> a mod 10 = 1 \<and> a \<noteq> 11" using r s by presburger
    have e2: "a = 2 \<longleftrightarrow> a mod 10 = 2 \<and> a \<noteq> 12" using r s by presburger
    have e3: "a = 3 \<longleftrightarrow> a mod 10 = 3 \<and> a \<noteq> 13" using r s by presburger
    have d: "a mod 10 = 1 \<longrightarrow> a \<noteq> 12 \<and> a \<noteq> 13" "a mod 10 = 2 \<longrightarrow> a \<noteq> 11 \<and> a \<noteq> 13"
      "a mod 10 = 3 \<longrightarrow> a \<noteq> 11 \<and> a \<noteq> 12" by auto
    show ?thesis
      using False e1 e2 e3 d unfolding u m a_def [symmetric] by (auto simp add: Let_def)
  qed
qed

theorem ordinal_suffix_witness:
  "(0::int) \<le> 112 \<and> ordinal 112 = js ''th'' \<and> ordinal 22 = js ''nd'' \<and> ordinal 101 = js ''st''"
  using ordinal_suffix [of 112] ordinal_suffix [of 22] ordinal_suffix [of 101] by simp

section \<open>Properties of tableSnippetRange\<close>

lemma indexOf_from_bounds:
  "x \<in> set xs \<Longrightarrow> k \<le> indexOf_from xs x k \<and> indexOf_from xs x k < k + int (length xs)"
proof (induction xs arbitrary: k)
  case Nil
  then show ?case by simp
next
  case (Cons y ys)
  show ?case
  proof (cases "y = x")
    case True
    then show ?thesis by simp
  next
    case False
    with Cons.prems have "x \<in> set ys" by simp
    from Cons.IH [OF this, of "k + 1"] False show ?thesis by simp
  qed
qed

lemma indexOf_bounds:
  "x \<in> set xs \<Longrightarrow> 0 \<le> indexOf xs x \<and> indexOf xs x < int (length xs)"
  using indexOf_from_bounds [of x xs 0] by (simp add: indexOf_def)

text \<open>
  Claim C3. For a table of at least 7 teams that contains the team, the bounds returned by
  \<open>tableSnippetRange\<close> satisfy \<open>0 \<le> low\<close>, \<open>high \<le> length\<close>, \<open>high - low = 7\<close> and
  \<open>low \<le> indexOf team < high\<close>; when the team is at least 3 places from the start and at
  least 4 from the end, the window is \<open>[index - 3, index + 4]\<close>.
\<close>

theorem tableSnippetRange_window:
  assumes "7 \<le> length sortedTeams" and "team' \<in> set sortedTeams"
    and "tableSnippetRange sortedTeams team' = (low, high)"
  shows "0 \<le> low \<and> high \<le> int (length sortedTeams) \<and> high - low = 7
    \<and> low \<le> indexOf sortedTeams team' \<and> indexOf sortedTeams team' < high
    \<and> (3 \<le> indexOf sortedTeams team' \<and> indexOf sortedTeams team' + 4 \<le> int (length sortedTeams)
        \<longrightarrow> low = indexOf sortedTeams team' - 3 \<and> high = indexOf sortedTeams team' + 4)"
proof -
  define i where "i = indexOf sortedTeams team'"
  define n where "n = int (length sortedTeams)"
  have b: "0 \<le> i" "i < n" "7 \<le> n"
    using indexOf_bounds [OF assms(2)] assms(1) by (simp_all add: i_def n_def)
  have "(low, high) =
      (if i - 3 < 0
       then (if 7 > n - 1 then (0 - (7 - n), n) else (0, 7))
       else (if i + 4 > n - 1 then (i - 3 - (i + 4 - n), n) else (i - 3, i + 4)))"
    using assms(3) [symmetric]
    by (simp add: tableSnippetRange_def Let_def i_def [symmetric] n_def [symmetric])
  then show ?thesis
    using b unfolding i_def [symmetric] n_def [symmetric]
    by (auto split: if_splits)
qed

theorem tableSnippetRange_window_witness:
  "7 \<le> length (map js [''a'', ''b'', ''c'', ''d'', ''e'', ''f'', ''g'', ''h''])
   \<and> js ''f'' \<in> set (map js [''a'', ''b'', ''c'', ''d'', ''e'', ''f'', ''g'', ''h''])
   \<and> tableSnippetRange (map js [''a'', ''b'', ''c'', ''d'', ''e'', ''f'', ''g'', ''h'']) (js ''f'')
       = (1, 8)
   \<and> indexOf (map js [''a'', ''b'', ''c'', ''d'', ''e'', ''f'', ''g'', ''h'']) (js ''f'') < 8"
proof -
  let ?ts = "map js [''a'', ''b'', ''c'', ''d'', ''e'', ''f'', ''g'', ''h'']"
  have h1: "7 \<le> length ?ts" by simp
  have h2: "js ''f'' \<in> set ?ts" by simp
  have h3: "tableSnippetRange ?ts (js ''f'') = (1, 8)"
    by (simp add: tableSnippetRange_def indexOf_def js_def)
  from tableSnippetRange_window [OF h1 h2 h3] h1 h2 h3 show ?thesis by simp
qed

section \<open>Properties of toInitials\<close>

lemma upper_latin1_length: "u \<noteq> 0xDF \<Longrightarrow> length (upper_latin1 u) = 1"
  by (simp add: upper_latin1_def)

lemma length_concat_single:
  "\<forall>x\<in>set xs. length (f x) = 1 \<Longrightarrow> length (concat (map f xs)) = length xs"
  by (induction xs) auto

lemma toUpperCase_length:
  assumes "\<forall>u\<in>set s. u < 0x100 \<and> u \<noteq> 0xDF"
  shows "length (toUpperCase U s) = length s"
proof -
  have "list_all (\<lambda>u. u < 0x100) s" using assms by (simp add: list_all_iff)
  then show ?thesis
    unfolding toUpperCase_def using assms
    by (simp add: length_concat_single upper_latin1_length)
qed

text \<open>
  Claim C4, as stated, fails: the name made of the sharp s (\<open>U+00DF\<close>) followed by "ab" has
  length 3, and its initials are the four characters "SSAB".
\<close>

theorem toInitials_length_counterexample:
  "length [0xDF, 0x61, 0x62 :: 16 word] = 3
   \<and> toInitials (\<lambda>s. s) [0xDF, 0x61, 0x62] = js ''SSAB''
   \<and> length (toInitials (\<lambda>s. s) [0xDF, 0x61, 0x62]) \<noteq> 3"
  by (simp add: toInitials_def js_def toUpperCase_def js_slice_def upper_latin1_def)

text \<open>
  Claim C4 (amended). Each of the seven special names gives its listed code; every other
  name gives the upper-casing of its first three characters; and for every name of length at
  least 3 whose first three characters are in Basic Latin or Latin-1 and are not the sharp s,
  the result has exactly 3 characters.
\<close>

theorem toInitials_codes:
  "toInitials U (js ''Brighton and Hove Albion'') = js ''BHA''
   \<and> toInitials U (js ''Manchester City'') = js ''MCI''
   \<and> toInitials U (js ''Manchester United'') = js ''MUN''
   \<and> toInitials U (js ''Aston Villa'') = js ''AVL''
   \<and> toInitials U (js ''Sheffield United'') = js ''SHU''
   \<and> toInitials U (js ''West Bromwich Albion'') = js ''WBA''
   \<and> toInitials U (js ''West Ham United'') = js ''WHU''
   \<and> (team' \<notin> {js ''Brighton and Hove Albion'', js ''Manchester City'',
          js ''Manchester United'', js ''Aston Villa'', js ''Sheffield United'',
          js ''West Bromwich Albion'', js ''West Ham United''}
        \<longrightarrow> toInitials U team' = toUpperCase U (js_slice team' 0 3))
   \<and> (3 \<le> length team' \<and> (\<forall>u\<in>set (js_slice team' 0 3). u < 0x100 \<and> u \<noteq> 0xDF)
        \<longrightarrow> length (toInitials U team') = 3)"
proof -
  have special:
    "toInitials U (js ''Brighton and Hove Albion'') = js ''BHA''"
    "toInitials U (js ''Manchester City'') = js ''MCI''"
    "toInitials U (js ''Manchester United'') = js ''MUN''"
    "toInitials U (js ''Aston Villa'') = js ''AVL''"
    "toInitials U (js ''Sheffield United'') = js ''SHU''"
    "toInitials U (js ''West Bromwich Albion'') = js ''WBA''"
    "toInitials U (js ''West Ham United'') = js ''WHU''"
    by (simp_all add: toInitials_def js_def)
  have other: "team' \<notin> {js ''Brighton and Hove Albion'', js ''Manchester City'',
          js ''Manchester United'', js ''Aston Villa'', js ''Sheffield United'',
          js ''West Bromwich Albion'', js ''West Ham United''}
        \<longrightarrow> toInitials U team' = toUpperCase U (js_slice team' 0 3)"
    by (simp add: toInitials_def)
  have len: "length (toInitials U team') = 3"
    if l: "3 \<le> length team'" and a: "\<forall>u\<in>set (js_slice team' 0 3). u < 0x100 \<and> u \<noteq> 0xDF"
  proof -
    have "length (toUpperCase U (js_slice team' 0 3)) = length (js_slice team' 0 3)"
      using a by (rule toUpperCase_length)
    also have "\<dots> = 3" using l by (simp add: js_slice_def)
    finally show ?thesis by (simp add: toInitials_def js_def)
  qed
  from special other len show ?thesis by blast
qed

theorem toInitials_codes_witness:
  "js ''Arsenal'' \<notin> {js ''Brighton and Hove Albion'', js ''Manchester City'',
          js ''Manchester United'', js ''Aston Villa'', js ''Sheffield United'',
          js ''West Bromwich Albion'', js ''West Ham United''}
   \<and> 3 \<le> length (js ''Arsenal'')
   \<and> list_all (\<lambda>u. u < 0x100 \<and> u \<noteq> 0xDF) (js_slice (js ''Arsenal'') 0 3)
   \<and> toInitials (\<lambda>s. s) (js ''Arsenal'') = toUpperCase (\<lambda>s. s) (js_slice (js ''Arsenal'') 0 3)
   \<and> length (toInitials (\<lambda>s. s) (js ''Arsenal'')) = 3"
proof -
  have h1: "js ''Arsenal'' \<notin> {js ''Brighton and Hove Albion'', js ''Manchester City'',
          js ''Manchester United'', js ''Aston Villa'', js ''Sheffield United'',
          js ''West Bromwich Albion'', js ''West Ham United''}"
    by (simp add: js_def)
  have h2: "3 \<le> length (js ''Arsenal'')" by (simp add: js_def)
  have h3: "\<forall>u\<in>set (js_slice (js ''Arsenal'') 0 3). u < 0x100 \<and> u \<noteq> 0xDF"
    by (simp add: js_def js_slice_def)
  from toInitials_codes [of "\<lambda>s. s" "js ''Arsenal''"] h1 h2 h3
  have "toInitials (\<lambda>s. s) (js ''Arsenal'') = toUpperCase (\<lambda>s. s) (js_slice (js ''Arsenal'') 0 3)
      \<and> length (toInitials (\<lambda>s. s) (js ''Arsenal'')) = 3"
    by blast
  moreover have "list_all (\<lambda>u. u < 0x100 \<and> u \<noteq> 0xDF) (js_slice (js ''Arsenal'') 0 3)"
    using h3 by (simp only: list_all_iff)
  ultimately show ?thesis using h1 h2 by blast
qed

section \<open>Properties of escape\<close>

lemma concat_unescaped:
  "\<forall>c\<in>set xs. f c = [c] \<Longrightarrow> concat (map f xs) = xs"
  by (induction xs) auto

lemma escape_loop_reference:
  assumes p: "pattern = (if is_attr then ATTR_REGEX else CONTENT_REGEX)"
  shows "k \<le> length str \<Longrightarrow>
     escape_loop pattern str k escaped k = escaped @ concat (map (escape_char is_attr) (drop k str))"
proof (induction "length str - k" arbitrary: k escaped rule: less_induct)
  case less
  define tw where "tw = takeWhile (\<lambda>c. \<not> pattern c) (drop k str)"
  define i where "i = k + length tw"
  have tw_plain: "concat (map (escape_char is_attr) tw) = tw"
  proof (rule concat_unescaped, rule ballI)
    fix c assume "c \<in> set tw"
    then have "\<not> pattern c" unfolding tw_def by (auto dest: set_takeWhileD)
    then show "escape_char is_attr c = [c]"
      by (auto simp: p escape_char_def ATTR_REGEX_def CONTENT_REGEX_def split: if_splits)
  qed
  show ?case
  proof (cases "i < length str")
    case False
    then have "length tw = length (drop k str)"
      using less.prems length_takeWhile_le [of "\<lambda>c. \<not> pattern c" "drop k str"]
      unfolding i_def tw_def by simp
    then have e: "tw = drop k str"
      unfolding tw_def by (metis takeWhile_eq_take take_all order_refl)
    have t: "regex_test pattern str k = (False, 0)"
      using False by (simp add: regex_test_def i_def tw_def)
    have s: "substring str k (length str) = drop k str"
      using less.prems by (simp add: substring_def max_def min_def)
    show ?thesis
      using tw_plain by (subst escape_loop.simps) (simp add: t s e)
  next
    case True
    have t: "regex_test pattern str k = (True, i + 1)"
      using True by (simp add: regex_test_def i_def tw_def)
    have lt: "length tw < length (drop k str)" using True less.prems by (simp add: i_def)
    have split: "drop k str = tw @ dropWhile (\<lambda>c. \<not> pattern c) (drop k str)"
      unfolding tw_def by simp
    have ne: "dropWhile (\<lambda>c. \<not> pattern c) (drop k str) \<noteq> []"
    proof
      assume "dropWhile (\<lambda>c. \<not> pattern c) (drop k str) = []"
      with split have "drop k str = tw" by simp
      with lt show False by simp
    qed
    from hd_dropWhile [OF ne] have ph: "pattern (hd (dropWhile (\<lambda>c. \<not> pattern c) (drop k str)))" by simp
    have "dropWhile (\<lambda>c. \<not> pattern c) (drop k str) = drop (length tw) (drop k str)"
      unfolding tw_def by (simp add: dropWhile_eq_drop)
    also have "\<dots> = drop i str" by (simp add: i_def add.commute)
    finally have dw: "dropWhile (\<lambda>c. \<not> pattern c) (drop k str) = drop i str" .
    have di: "drop i str = str ! i # drop (i + 1) str"
      using Cons_nth_drop_Suc [OF True, symmetric] by simp
    have pi: "pattern (str ! i)" using ph unfolding dw di by simp
    have s: "substring str k i = tw"
    proof -
      have "substring str k i = take (i - k) (drop k str)"
        using True less.prems by (simp add: substring_def i_def max_def min_def)
      also have "\<dots> = tw"
        using takeWhile_eq_take [of "\<lambda>c. \<not> pattern c" "drop k str", symmetric]
        by (simp add: i_def tw_def)
      finally show ?thesis .
    qed
    have c: "char_at str i = Some (str ! i)" using True by (simp add: char_at_def)
    have r: "(if str ! i = 0x26 then js ''&amp;''
              else if str ! i = 0x22 then js ''&quot;'' else js ''&lt;'')
           = escape_char is_attr (str ! i)"
      using pi by (auto simp: p escape_char_def ATTR_REGEX_def CONTENT_REGEX_def split: if_splits)
    have ih: "escape_loop pattern str (i + 1) esc (i + 1)
        = esc @ concat (map (escape_char is_attr) (drop (i + 1) str))" for esc
      using less.hyps [of "i + 1" esc] True less.prems by (simp add: i_def)
    have "escape_loop pattern str k escaped k
        = escape_loop pattern str (i + 1) (escaped @ tw @ escape_char is_attr (str ! i)) (i + 1)"
      unfolding r [symmetric] by (subst escape_loop.simps) (simp add: t s c Let_def)
    also have "\<dots> = (escaped @ tw @ escape_char is_attr (str ! i))
          @ concat (map (escape_char is_attr) (drop (i + 1) str))"
      by (rule ih)
    also have "\<dots> = escaped @ concat (map (escape_char is_attr) (drop k str))"
    proof -
      have "drop k str = tw @ str ! i # drop (i + 1) str"
        using split unfolding dw di .
      then show ?thesis using tw_plain by simp
    qed
    finally show ?thesis .
  qed
qed

text \<open>
  Claim C8. In both modes the optimised loop of \<open>escape\<close> returns what the per-character
  reference implementation returns: \<open>&\<close> replaced by \<open>&amp;\<close>, and \<open><\<close> by \<open>&lt;\<close> in content
  mode or the double quote by \<open>&quot;\<close> in attribute mode, everything else unchanged and in
  order.
\<close>

theorem escape_eq_reference: "escape str is_attr = escape_reference str is_attr"
  using escape_loop_reference [of _ is_attr 0 str "[]"]
  by (simp add: escape_def escape_reference_def)

section \<open>Properties of the writable store\<close>























section \<open>Properties of buildStats\<close>

lemma count_loop_eq:
  "seasonStats team' = Some st \<Longrightarrow>
     count_loop ms team' seasonStats = Inr (seasonStats(team' \<mapsto> apply_matches ms st))"
proof (induction ms arbitrary: seasonStats st)
  case Nil
  then show ?case by (simp add: map_upd_triv)
next
  case (Cons m ms)
  show ?case
  proof (cases "score m")
    case None
    then show ?thesis using Cons.IH [of seasonStats st, OF Cons.prems] by simp
  next
    case (Some sc)
    let ?s = "seasonStats(team' \<mapsto> count_match sc (atHome m) st)"
    have e: "apply_matches (m # ms) st = apply_matches ms (count_match sc (atHome m) st)"
      using Some by simp
    have "count_loop (m # ms) team' seasonStats = count_loop ms team' ?s"
      using Some Cons.prems by simp
    also have "\<dots> = Inr (?s(team' \<mapsto> apply_matches ms (count_match sc (atHome m) st)))"
      by (rule Cons.IH) simp
    also have "?s(team' \<mapsto> apply_matches ms (count_match sc (atHome m) st))
        = seasonStats(team' \<mapsto> apply_matches ms (count_match sc (atHome m) st))"
      by (rule fun_upd_upd)
    finally show ?thesis unfolding e .
  qed
qed

lemma count_match_played: "played (count_match sc h st) = played st + 1"
  by (simp add: count_match_def Let_def)

lemma count_match_clean:
  "cleanSheetRatio (count_match sc h st) =
     cleanSheetRatio st + (if (if h then awayGoals sc = 0 else homeGoals sc = 0) then 1 else 0)"
  by (simp add: count_match_def Let_def isCleanSheet_def)

lemma apply_matches_played:
  "played (apply_matches ms st) = played st + of_nat (length (filter (\<lambda>m. score m \<noteq> None) ms))"
  by (induction ms arbitrary: st) (auto simp: count_match_played split: option.splits)

lemma apply_matches_clean:
  "cleanSheetRatio (apply_matches ms st) =
     cleanSheetRatio st + of_nat (length (filter conceded_zero ms))"
  by (induction ms arbitrary: st)
     (auto simp: count_match_clean conceded_zero_def split: option.splits)

lemma countOccurances_eq:
  assumes "seasonStats team' = Some st"
    and "case map_of (form data') team' of None \<Rightarrow> team' \<notin> set object_prototype_names
          | Some seasons \<Rightarrow> map_of seasons season \<noteq> None"
  shows "countOccurances data' seasonStats team' season
    = Inr (seasonStats(team' \<mapsto> apply_matches (season_matches data' team' season) st))"
  using assms
  by (auto simp: countOccurances_def js_in_def season_matches_def count_loop_eq map_upd_triv
      split: option.splits)

lemma countOccurances_absent:
  assumes "map_of (form data') team' = Some seasons" and "map_of seasons season = None"
  shows "countOccurances data' seasonStats team' season = Inl TypeError"
  using assms by (simp add: countOccurances_def js_in_def)

lemma countOccurances_inherited:
  assumes "map_of (form data') team' = None" and "team' \<in> set object_prototype_names"
  shows "countOccurances data' seasonStats team' season = Inl TypeError"
  using assms by (simp add: countOccurances_def js_in_def)

lemma build_loop_step:
  assumes "team_present data' team'"
  shows "build_loop data' (team' # teams') stats'
    = build_loop data' teams' (stats'(team' \<mapsto> team_final data' team'))"
proof -
  let ?s1 = "stats'(team' \<mapsto> zero_stats)"
  let ?a = "apply_matches (season_matches data' team' (data_id data')) zero_stats"
  let ?b = "apply_matches (season_matches data' team' (data_id data' - 1)) ?a"
  have p1: "case map_of (form data') team' of None \<Rightarrow> team' \<notin> set object_prototype_names
          | Some seasons \<Rightarrow> map_of seasons (data_id data') \<noteq> None"
    and p2: "case map_of (form data') team' of None \<Rightarrow> team' \<notin> set object_prototype_names
          | Some seasons \<Rightarrow> map_of seasons (data_id data' - 1) \<noteq> None"
    using assms by (auto simp: team_present_def split: option.splits)
  have c1: "countOccurances data' ?s1 team' (data_id data') = Inr (stats'(team' \<mapsto> ?a))"
    using countOccurances_eq [of ?s1 team' zero_stats, OF _ p1] by simp
  have c2: "countOccurances data' (stats'(team' \<mapsto> ?a)) team' (data_id data' - 1)
      = Inr (stats'(team' \<mapsto> ?b))"
    using countOccurances_eq [of "stats'(team' \<mapsto> ?a)" team' ?a, OF _ p2] by simp
  show ?thesis
    by (simp add: c1 c2 team_final_def Let_def map_upd_triv)
qed

lemma build_loop_throws:
  assumes "\<not> team_present data' team'"
  shows "build_loop data' (team' # teams') stats' = Inl TypeError"
proof (cases "map_of (form data') team'")
  case None
  with assms have "team' \<in> set object_prototype_names"
    by (simp add: team_present_def)
  from countOccurances_inherited [OF None this] show ?thesis by simp
next
  case (Some seasons)
  note f = Some
  from assms f
  have m: "map_of seasons (data_id data') = None \<or> map_of seasons (data_id data' - 1) = None"
    by (auto simp: team_present_def)
  show ?thesis
  proof (cases "map_of seasons (data_id data') = None")
    case True
    then show ?thesis by (simp add: countOccurances_absent [OF f])
  next
    case False
    then have p1: "case map_of (form data') team' of
            None \<Rightarrow> team' \<notin> set object_prototype_names
          | Some seasons \<Rightarrow> map_of seasons (data_id data') \<noteq> None"
      using f by simp
    have n: "map_of seasons (data_id data' - 1) = None"
    proof (rule disjE [OF m])
      assume "map_of seasons (data_id data') = None"
      with False show ?thesis by (rule notE)
    qed
    have c1: "countOccurances data' (stats'(team' \<mapsto> zero_stats)) team' (data_id data')
        = Inr (stats'(team' \<mapsto> apply_matches (season_matches data' team' (data_id data')) zero_stats))"
      using countOccurances_eq [of "stats'(team' \<mapsto> zero_stats)" team' zero_stats, OF _ p1] by simp
    show ?thesis by (simp add: c1 countOccurances_absent [OF f n])
  qed
qed

lemma build_loop_returns:
  "list_all (team_present data') teams' \<Longrightarrow>
     build_loop data' teams' stats'
       = Inr (fold (\<lambda>team' s. s(team' \<mapsto> team_final data' team')) teams' stats')"
proof (induction teams' arbitrary: stats')
  case Nil
  then show ?case by simp
next
  case (Cons team' teams')
  then have t: "team_present data' team'" and ts: "list_all (team_present data') teams'"
    by simp_all
  have "build_loop data' (team' # teams') stats'
      = build_loop data' teams' (stats'(team' \<mapsto> team_final data' team'))"
    using t by (rule build_loop_step)
  also have "\<dots> = Inr (fold (\<lambda>team' s. s(team' \<mapsto> team_final data' team')) teams'
      (stats'(team' \<mapsto> team_final data' team')))"
    using ts by (rule Cons.IH)
  finally show ?case by (simp only: fold_Cons comp_apply)
qed

lemma build_loop_fails:
  "\<not> list_all (team_present data') teams' \<Longrightarrow> build_loop data' teams' stats' = Inl TypeError"
proof (induction teams' arbitrary: stats')
  case Nil
  then show ?case by simp
next
  case (Cons team' teams')
  show ?case
  proof (cases "team_present data' team'")
    case True
    with Cons.prems have "\<not> list_all (team_present data') teams'" by simp
    from Cons.IH [OF this] show ?thesis
      by (simp only: build_loop_step [OF True])
  next
    case False
    then show ?thesis by (rule build_loop_throws)
  qed
qed

lemma fold_team_final:
  "fold (\<lambda>team' s. s(team' \<mapsto> f team')) teams' stats' team'
     = (if team' \<in> set teams' then Some (f team') else stats' team')"
  by (induction teams' arbitrary: stats') auto

lemma filter_conceded_played:
  "filter conceded_zero (filter (\<lambda>m. score m \<noteq> None) ms) = filter conceded_zero ms"
  by (induction ms) (auto simp: conceded_zero_def)

lemma divide_stats_clean: "cleanSheetRatio (divide_stats st) = cleanSheetRatio st / played st"
  by (simp add: divide_stats_def Let_def)

lemma team_final_clean: "cleanSheetRatio (team_final data' team') = clean_sheet_ratio data' team'"
proof -
  let ?m1 = "season_matches data' team' (data_id data')"
  let ?m2 = "season_matches data' team' (data_id data' - 1)"
  let ?st = "apply_matches ?m2 (apply_matches ?m1 zero_stats)"
  have p: "played ?st = of_nat (length (played_matches data' team'))"
    by (simp add: apply_matches_played played_matches_def zero_stats_def)
  have f: "filter conceded_zero (played_matches data' team') = filter conceded_zero (?m1 @ ?m2)"
    unfolding played_matches_def by (rule filter_conceded_played)
  have c: "cleanSheetRatio ?st
      = of_nat (length (filter conceded_zero (played_matches data' team')))"
    unfolding f by (simp add: apply_matches_clean zero_stats_def)
  show ?thesis
  proof (cases "length (played_matches data' team') > 0")
    case True
    then have "played ?st > 0" unfolding p by simp
    then show ?thesis
      using True unfolding team_final_def Let_def clean_sheet_ratio_def
      by (simp add: divide_stats_clean p c)
  next
    case False
    then have e: "played_matches data' team' = []" by simp
    have "\<not> played ?st > 0" unfolding p e by simp
    then show ?thesis
      unfolding team_final_def Let_def clean_sheet_ratio_def using c e by simp
  qed
qed

lemma seasons_present_iff:
  "seasons_present data' \<longleftrightarrow> list_all (team_present data') (map fst (standings data'))"
  by (simp add: seasons_present_def)

text \<open>
  Claim C5, as stated, fails: the team A of the standings has a form with the season 2022
  and without the season 2021. It has played one match and conceded no goal in it, so the
  claim gives the ratio 1; \<open>buildStats\<close> throws a \<open>TypeError\<close> at \<open>Object.keys\<close> of the absent
  season and computes no ratio.
\<close>

theorem buildStats_throws_counterexample:
  "js ''A'' \<in> set (map fst (standings
     \<lparr>data_id = 2022, standings = [(js ''A'', ())],
      form = [(js ''A'',
        [(2022, [(js ''1'', \<lparr>score = Some \<lparr>homeGoals = 1, awayGoals = 0\<rparr>,
                              atHome = True\<rparr>)])])]\<rparr>))
   \<and> clean_sheet_ratio
     \<lparr>data_id = 2022, standings = [(js ''A'', ())],
      form = [(js ''A'',
        [(2022, [(js ''1'', \<lparr>score = Some \<lparr>homeGoals = 1, awayGoals = 0\<rparr>,
                              atHome = True\<rparr>)])])]\<rparr> (js ''A'') = 1
   \<and> buildStats
     \<lparr>data_id = 2022, standings = [(js ''A'', ())],
      form = [(js ''A'',
        [(2022, [(js ''1'', \<lparr>score = Some \<lparr>homeGoals = 1, awayGoals = 0\<rparr>,
                              atHome = True\<rparr>)])])]\<rparr> = Inl TypeError"
  by (simp add: buildStats_def countOccurances_def js_in_def count_match_def isCleanSheet_def
      notScored_def goalsScored_def goalsConceded_def zero_stats_def Let_def
      clean_sheet_ratio_def played_matches_def season_matches_def conceded_zero_def js_def)

text \<open>
  Claim C5 (amended). \<open>buildStats\<close> returns exactly on the data objects in which every team
  of \<open>data.standings\<close> either has a form with both seasons \<open>data._id\<close> and \<open>data._id - 1\<close>, or
  has no form and a name that is not inherited from \<open>Object.prototype\<close>; on every other data
  object it throws a \<open>TypeError\<close>. Whenever it returns, the clean-sheet ratio of every team
  of \<open>data.standings\<close> is the number of played matches of the two seasons in which the team
  conceded no goal, divided by the number of its played matches, or 0 when it played none.
\<close>

theorem buildStats_clean_sheet_ratio:
  "(seasons_present data' \<longleftrightarrow> (\<exists>stats'. buildStats data' = Inr stats'))
   \<and> (\<not> seasons_present data' \<longrightarrow> buildStats data' = Inl TypeError)
   \<and> (\<forall>stats'. buildStats data' = Inr stats' \<and> team' \<in> set (map fst (standings data'))
        \<longrightarrow> (\<exists>st. stats' team' = Some st
               \<and> cleanSheetRatio st = clean_sheet_ratio data' team'))"
proof (cases "seasons_present data'")
  case True
  then have "list_all (team_present data') (map fst (standings data'))"
    by (simp add: seasons_present_iff)
  from build_loop_returns [OF this, of Map.empty]
  show ?thesis
    using True by (auto simp: buildStats_def fold_team_final team_final_clean)
next
  case False
  then have "\<not> list_all (team_present data') (map fst (standings data'))"
    by (simp add: seasons_present_iff)
  from build_loop_fails [OF this, of Map.empty]
  show ?thesis using False by (simp add: buildStats_def)
qed

theorem buildStats_clean_sheet_ratio_witness:
  "seasons_present
     \<lparr>data_id = 2022, standings = [(js ''A'', ()), (js ''B'', ())],
      form = [(js ''A'',
        [(2022, [(js ''1'', \<lparr>score = Some \<lparr>homeGoals = 1, awayGoals = 0\<rparr>, atHome = True\<rparr>),
                 (js ''2'', \<lparr>score = None, atHome = True\<rparr>)]),
         (2021, [(js ''1'', \<lparr>score = Some \<lparr>homeGoals = 1, awayGoals = 0\<rparr>, atHome = False\<rparr>)])])]\<rparr>
   \<and> (\<exists>stats' st. buildStats
     \<lparr>data_id = 2022, standings = [(js ''A'', ()), (js ''B'', ())],
      form = [(js ''A'',
        [(2022, [(js ''1'', \<lparr>score = Some \<lparr>homeGoals = 1, awayGoals = 0\<rparr>, atHome = True\<rparr>),
                 (js ''2'', \<lparr>score = None, atHome = True\<rparr>)]),
         (2021, [(js ''1'', \<lparr>score = Some \<lparr>homeGoals = 1, awayGoals = 0\<rparr>, atHome = False\<rparr>)])])]\<rparr>
       = Inr stats' \<and> stats' (js ''A'') = Some st \<and> cleanSheetRatio st = 1 / 2)
   \<and> \<not> seasons_present
     \<lparr>data_id = 2022, standings = [(js ''toString'', ())], form = []\<rparr>
   \<and> buildStats \<lparr>data_id = 2022, standings = [(js ''toString'', ())], form = []\<rparr>
       = Inl TypeError"
proof -
  let ?d = "\<lparr>data_id = 2022, standings = [(js ''A'', ()), (js ''B'', ())],
      form = [(js ''A'',
        [(2022, [(js ''1'', \<lparr>score = Some \<lparr>homeGoals = 1, awayGoals = 0\<rparr>, atHome = True\<rparr>),
                 (js ''2'', \<lparr>score = None, atHome = True\<rparr>)]),
         (2021, [(js ''1'', \<lparr>score = Some \<lparr>homeGoals = 1, awayGoals = 0\<rparr>, atHome = False\<rparr>)])])]\<rparr>"
  let ?e = "\<lparr>data_id = 2022, standings = [(js ''toString'', ())], form = []\<rparr>
    :: unit data"
  have h: "seasons_present ?d"
    by (simp add: seasons_present_def team_present_def object_prototype_names_def js_def)
  have m: "js ''A'' \<in> set (map fst (standings ?d))" by simp
  have r: "clean_sheet_ratio ?d (js ''A'') = 1 / 2"
    by (simp add: clean_sheet_ratio_def played_matches_def season_matches_def
        conceded_zero_def js_def)
  from buildStats_clean_sheet_ratio [of ?d "js ''A''"] h
  obtain stats' where b: "buildStats ?d = Inr stats'" by blast
  from buildStats_clean_sheet_ratio [of ?d "js ''A''"] b m
  obtain st where "stats' (js ''A'') = Some st"
    and "cleanSheetRatio st = clean_sheet_ratio ?d (js ''A'')" by blast
  with b r have x: "\<exists>stats' st. buildStats ?d = Inr stats' \<and> stats' (js ''A'') = Some st
      \<and> cleanSheetRatio st = 1 / 2" by auto
  have n: "\<not> seasons_present ?e"
    by (simp add: seasons_present_def team_present_def object_prototype_names_def)
  from buildStats_clean_sheet_ratio [of ?e "js ''toString''"] n
  have t: "buildStats ?e = Inl TypeError" by blast
  from h x n t show ?thesis by blast
qed

section \<open>Properties of pick\<close>

lemma fold_segment_points:
  "fold (\<lambda>segment score'.
          (let score' = score' + SEGMENT_POINTS
           in if isRootSegment segment then score' + ROOT_POINTS
              else if isDynamic segment then score' + DYNAMIC_POINTS
              else if isSplat segment then score' - (SEGMENT_POINTS + SPLAT_PENALTY)
              else score' + STATIC_POINTS)) xs a
   = a + sum_list (map segment_points xs)"
  by (induction xs arbitrary: a)
     (simp_all add: segment_points_def Let_def SEGMENT_POINTS_def ROOT_POINTS_def
        DYNAMIC_POINTS_def SPLAT_PENALTY_def STATIC_POINTS_def isRootSegment_def)

lemma rankRoute_fields:
  "route (rankRoute r i) = r" "index (rankRoute r i) = i"
  "rscore (rankRoute r i) = route_points r"
  by (simp_all add: rankRoute_def route_points_def fold_segment_points)

lemma le_ranked_iff:
  "le_ranked a b \<longleftrightarrow> rscore b < rscore a \<or> (rscore a = rscore b \<and> index a \<le> index b)"
  by (auto simp: le_ranked_def compare_ranked_def)

lemma le_ranked_total: "\<not> le_ranked a b \<Longrightarrow> le_ranked b a"
  by (auto simp: le_ranked_iff)

lemma le_ranked_trans: "le_ranked a b \<Longrightarrow> le_ranked b c \<Longrightarrow> le_ranked a c"
  by (auto simp: le_ranked_iff)

lemma set_insert_ranked: "set (insert_ranked x ys) = insert x (set ys)"
  by (induction ys) (auto simp: le_ranked_def)

lemma sorted_insert_ranked:
  "sorted_wrt le_ranked ys \<Longrightarrow> sorted_wrt le_ranked (insert_ranked x ys)"
proof (induction ys)
  case Nil
  then show ?case by simp
next
  case (Cons y ys)
  show ?case
  proof (cases "compare_ranked x y \<le> 0")
    case True
    then have xy: "le_ranked x y" by (simp add: le_ranked_def)
    have "\<forall>z\<in>set ys. le_ranked x z"
      using Cons.prems xy by (auto intro: le_ranked_trans)
    then show ?thesis using True xy Cons.prems by simp
  next
    case False
    then have "\<not> le_ranked x y" by (simp add: le_ranked_def)
    then have "le_ranked y x" by (rule le_ranked_total)
    then show ?thesis
      using False Cons by (simp add: set_insert_ranked)
  qed
qed

lemma set_sort_ranked: "set (sort_ranked xs) = set xs"
  by (induction xs) (simp_all add: sort_ranked_def set_insert_ranked)

lemma sorted_sort_ranked: "sorted_wrt le_ranked (sort_ranked xs)"
  by (induction xs) (simp_all add: sort_ranked_def sorted_insert_ranked)

lemma set_map_index:
  "y \<in> set (map_index f xs k) \<longleftrightarrow> (\<exists>i<length xs. y = f (xs ! i) (k + int i))"
proof (induction xs arbitrary: k)
  case Nil
  then show ?case by simp
next
  case (Cons x xs)
  have "(\<exists>i<length (x # xs). y = f ((x # xs) ! i) (k + int i))
      \<longleftrightarrow> y = f x k \<or> (\<exists>i<length xs. y = f (xs ! i) (k + 1 + int i))"
    by (auto simp: less_Suc_eq_0_disj add.assoc)
  then show ?case using Cons.IH [of "k + 1"] by simp
qed

lemma set_rankRoutes:
  "y \<in> set (rankRoutes routes) \<longleftrightarrow> (\<exists>i<length routes. y = rankRoute (routes ! i) (int i))"
  by (simp add: rankRoutes_def set_sort_ranked set_map_index)

lemma decode_all_ok:
  "\<forall>s\<in>set ss. decodes s \<Longrightarrow> \<exists>ds. decode_all ss = Inr ds"
proof (induction ss)
  case Nil
  then show ?case by simp
next
  case (Cons s ss)
  then obtain ds where "decode_all ss = Inr ds" by auto
  moreover from Cons.prems obtain d where "decodeURIComponent s = Inr d"
    by (cases "decodeURIComponent s") (auto simp: decodes_def)
  ultimately show ?case by simp
qed

lemma match_segments_ok:
  assumes dec: "\<forall>s\<in>set uriSegments. decodes s"
  shows "\<exists>r. match_segments routeSegments uriSegments isRootUri max' index' params' = Inr r"
proof (induction "max' - index'" arbitrary: index' params' rule: less_induct)
  case less
  show ?case
  proof (cases "index' < max'")
    case False
    then show ?thesis by (subst match_segments.simps) auto
  next
    case True
    have ih: "\<exists>r. match_segments routeSegments uriSegments isRootUri max' (index' + 1) ps = Inr r"
      for ps
      using less [of "index' + 1" ps] True by simp
    have d: "\<exists>ds. decode_all (drop index' uriSegments) = Inr ds"
    proof (rule decode_all_ok, rule ballI)
      fix s assume "s \<in> set (drop index' uriSegments)"
      then have "s \<in> set uriSegments" by (rule in_set_dropD)
      with dec show "decodes s" by simp
    qed
    then obtain ds where ds: "decode_all (drop index' uriSegments) = Inr ds" ..
    show ?thesis
    proof (cases "case js_nth routeSegments index' of None \<Rightarrow> None
                  | Some rs \<Rightarrow> if isSplat rs then Some rs else None")
      case (Some rs)
      then show ?thesis
        using True by (subst match_segments.simps) (auto simp: Let_def ds)
    next
      case None
      note splat = None
      show ?thesis
      proof (cases "js_nth uriSegments index'")
        case None
        then show ?thesis
          using True splat by (subst match_segments.simps) (auto simp: Let_def)
      next
        case (Some us)
        then have "us \<in> set uriSegments" by (auto simp: js_nth_def split: if_splits)
        with dec obtain v where v: "decodeURIComponent us = Inr v"
          by (cases "decodeURIComponent us") (auto simp: decodes_def)
        show ?thesis
        proof (cases "if isRootUri then None
            else paramRe_exec (case js_nth routeSegments index' of
                                 None \<Rightarrow> js ''undefined'' | Some rs \<Rightarrow> rs)")
          case None
          then show ?thesis
            using True splat Some ih [of params']
            by (subst match_segments.simps) (auto simp: Let_def)
        next
          case (Some name)
          then show ?thesis
            using True splat \<open>js_nth uriSegments index' = Some us\<close> v
              ih [of "obj_set params' name v"]
            by (subst match_segments.simps) (auto simp: Let_def)
        qed
      qed
    qed
  qed
qed

lemma try_route_ok:
  assumes "\<forall>s\<in>set uriSegments. decodes s"
  shows "\<exists>r. try_route route' uriSegments isRootUri = Inr r"
proof -
  from match_segments_ok [OF assms]
  obtain r where "match_segments (segmentize (path route')) uriSegments isRootUri
      (max (length uriSegments) (length (segmentize (path route')))) 0 Map.empty = Inr r"
    by blast
  then show ?thesis
    by (cases r) (auto simp: try_route_def Let_def)
qed

lemma pick_loop_ok:
  "\<forall>x\<in>set rs. \<exists>r. try_route (route x) us isRoot = Inr r \<Longrightarrow>
     \<exists>res. pick_loop rs uri us isRoot d = Inr res"
proof (induction rs arbitrary: d)
  case Nil
  then show ?case by simp
next
  case (Cons r rs)
  then obtain res where res: "try_route (route r) us isRoot = Inr res" by auto
  from Cons have ih: "\<exists>res. pick_loop rs uri us isRoot d' = Inr res" for d' by simp
  show ?case
  proof (cases "is_default (route r)")
    case True
    then show ?thesis using ih by simp
  next
    case False
    then show ?thesis using ih [of d] res by (cases res) simp_all
  qed
qed

lemma pick_loop_Some:
  "pick_loop rs uri us isRoot d = Inr (Some mm, d') \<Longrightarrow>
     \<exists>pre x post. rs = pre @ x # post \<and> \<not> is_default (route x)
       \<and> try_route (route x) us isRoot = Inr (Some mm)
       \<and> (\<forall>y\<in>set pre. is_default (route y) \<or> try_route (route y) us isRoot = Inr None)"
proof (induction rs arbitrary: d)
  case Nil
  then show ?case by simp
next
  case (Cons r rs)
  have step: ?case
    if rec: "pick_loop rs uri us isRoot e = Inr (Some mm, d')"
      and skip: "is_default (route r) \<or> try_route (route r) us isRoot = Inr None" for e
  proof -
    from Cons.IH [OF rec] obtain pre x post where
      p: "rs = pre @ x # post" "\<not> is_default (route x)"
        "try_route (route x) us isRoot = Inr (Some mm)"
        "\<forall>y\<in>set pre. is_default (route y) \<or> try_route (route y) us isRoot = Inr None"
      by blast
    have "r # rs = (r # pre) @ x # post" using p(1) by simp
    moreover have "\<forall>y\<in>set (r # pre). is_default (route y) \<or> try_route (route y) us isRoot = Inr None"
      using p(4) skip by simp
    ultimately show ?thesis using p(2,3) by blast
  qed
  show ?case
  proof (cases "is_default (route r)")
    case True
    with Cons.prems show ?thesis by (intro step) simp_all
  next
    case False
    show ?thesis
    proof (cases "try_route (route r) us isRoot")
      case (Inl e)
      with False Cons.prems show ?thesis by simp
    next
      case (Inr res)
      show ?thesis
      proof (cases res)
        case None
        with False Inr Cons.prems show ?thesis by (intro step) simp_all
      next
        case (Some m)
        with False Inr Cons.prems have "m = mm" by simp
        with False Inr Some have "r # rs = [] @ r # rs \<and> \<not> is_default (route r)
            \<and> try_route (route r) us isRoot = Inr (Some mm)
            \<and> (\<forall>y\<in>set []. is_default (route y) \<or> try_route (route y) us isRoot = Inr None)"
          by simp
        then show ?thesis by blast
      qed
    qed
  qed
qed

lemma pick_loop_None:
  "pick_loop rs uri us isRoot d = Inr (None, d') \<Longrightarrow>
     (\<forall>y\<in>set rs. is_default (route y) \<or> try_route (route y) us isRoot = Inr None)
     \<and> ((d' = d \<and> (\<forall>y\<in>set rs. \<not> is_default (route y)))
        \<or> (\<exists>y\<in>set rs. is_default (route y)
              \<and> d' = Some \<lparr>match_route = route y, params = Map.empty, match_uri = uri\<rparr>))"
proof (induction rs arbitrary: d)
  case Nil
  then show ?case by simp
next
  case (Cons r rs)
  show ?case
  proof (cases "is_default (route r)")
    case True
    with Cons.prems have
      "pick_loop rs uri us isRoot (Some \<lparr>match_route = route r, params = Map.empty, match_uri = uri\<rparr>)
        = Inr (None, d')" by simp
    from Cons.IH [OF this] True show ?thesis by auto
  next
    case False
    show ?thesis
    proof (cases "try_route (route r) us isRoot")
      case (Inl e)
      with False Cons.prems show ?thesis by simp
    next
      case (Inr res)
      show ?thesis
      proof (cases res)
        case None
        with False Inr Cons.prems have "pick_loop rs uri us isRoot d = Inr (None, d')" by simp
        from Cons.IH [OF this] False Inr None show ?thesis by auto
      next
        case (Some m)
        with False Inr Cons.prems show ?thesis by simp
      qed
    qed
  qed
qed

lemma try_route_Some_route:
  "try_route r us isRoot = Inr (Some m) \<Longrightarrow> match_route m = r"
  by (auto simp: try_route_def Let_def split: sum.splits prod.splits if_splits)

lemma route_match_eq:
  "try_route r (uri_segments uri) (js_nth (uri_segments uri) 0 = Some []) = Inr x
     \<Longrightarrow> route_match r uri = x"
  by (simp add: route_match_def)

lemma pick_eq:
  "pick_loop (rankRoutes routes) uri (uri_segments uri) (js_nth (uri_segments uri) 0 = Some [])
      None = Inr (m, d')
   \<Longrightarrow> pick routes uri = Inr (case m of Some mm \<Rightarrow> Some mm | None \<Rightarrow> d')"
  by (simp add: pick_def Let_def)

text \<open>
  Claim C1, as stated, fails: on the route \<open>:id\<close> and the URI \<open>/%\<close> the segment \<open>%\<close> does not
  decode, and \<open>pick\<close> throws a \<open>URIError\<close> instead of returning a match or \<open>null\<close>.
\<close>

theorem pick_throws_counterexample:
  "pick [\<lparr>path = js '':id'', is_default = False, route_value = ()\<rparr>] (js ''/%'') = Inl URIError"
  by (simp add: pick_def uri_segments_def segmentize_def stripSlashes_def js_def rankRoutes_def
      sort_ranked_def rankRoute_def try_route_def match_segments.simps js_nth_def isSplat_def
      paramRe_exec_def line_terminator_def Let_def)

text \<open>
  Claim C1 (amended). For every list of routes and every URI whose path segments all decode
  (\<open>decodeURIComponent\<close> throws on none of them), \<open>pick\<close> returns: the match of the route
  that is not a default route, matches the URI and has the highest score, the lowest index
  among those of equal score, where the score is the sum over the segments of 4 points plus
  3 for a static, 2 for a dynamic, 1 for the root segment and minus 5 for a splat; if no such
  route matches, a match with empty params and the URI for a default route; and \<open>null\<close> if
  there is no default route either.
\<close>

theorem pick_selects_best:
  assumes dec: "\<forall>seg\<in>set (uri_segments uri). decodes seg"
  shows "\<exists>res. pick routes uri = Inr res \<and>
     (case res of
        Some m \<Rightarrow>
          (\<exists>i<length routes. match_route m = routes ! i \<and>
             ((\<not> is_default (routes ! i) \<and> route_match (routes ! i) uri = Some m
                 \<and> (\<forall>j<length routes.
                       \<not> is_default (routes ! j) \<and> route_match (routes ! j) uri \<noteq> None
                       \<longrightarrow> route_points (routes ! j) < route_points (routes ! i)
                           \<or> (route_points (routes ! j) = route_points (routes ! i) \<and> i \<le> j)))
              \<or> (is_default (routes ! i) \<and> params m = Map.empty \<and> match_uri m = uri
                 \<and> (\<forall>j<length routes.
                       \<not> is_default (routes ! j) \<longrightarrow> route_match (routes ! j) uri = None))))
      | None \<Rightarrow>
          (\<forall>j<length routes. \<not> is_default (routes ! j) \<and> route_match (routes ! j) uri = None))"
proof -
  let ?us = "uri_segments uri"
  let ?isRoot = "js_nth ?us 0 = Some []"
  let ?ranked = "rankRoutes routes"
  have mem: "rankRoute (routes ! j) (int j) \<in> set ?ranked" if "j < length routes" for j
    using that by (auto simp: set_rankRoutes)
  have "\<exists>res. pick_loop ?ranked uri ?us ?isRoot None = Inr res"
    by (rule pick_loop_ok) (simp add: try_route_ok [OF dec])
  then obtain m d' where pl: "pick_loop ?ranked uri ?us ?isRoot None = Inr (m, d')"
    by (metis surj_pair)
  note pk = pick_eq [OF pl]
  show ?thesis
  proof (cases m)
    case (Some mm)
    from pick_loop_Some [OF pl [unfolded Some]] obtain pre x post where
      sp: "?ranked = pre @ x # post" and nd: "\<not> is_default (route x)"
      and tr: "try_route (route x) ?us ?isRoot = Inr (Some mm)"
      and before: "\<forall>y\<in>set pre. is_default (route y) \<or> try_route (route y) ?us ?isRoot = Inr None"
      by blast
    have "x \<in> set ?ranked" unfolding sp by simp
    then obtain i where i: "i < length routes" and x: "x = rankRoute (routes ! i) (int i)"
      by (auto simp: set_rankRoutes)
    have rx: "route x = routes ! i" unfolding x by (simp add: rankRoute_fields)
    have "sorted_wrt le_ranked (pre @ x # post)"
      using sorted_sort_ranked [of "map_index rankRoute routes 0"]
      unfolding sp [symmetric] rankRoutes_def .
    then have after: "\<forall>z\<in>set post. le_ranked x z"
      by (simp add: sorted_wrt_append)
    have best: "route_points (routes ! j) < route_points (routes ! i)
        \<or> (route_points (routes ! j) = route_points (routes ! i) \<and> i \<le> j)"
      if j: "j < length routes" and ndj: "\<not> is_default (routes ! j)"
        and mj: "route_match (routes ! j) uri \<noteq> None" for j
    proof -
      let ?y = "rankRoute (routes ! j) (int j)"
      have ry: "route ?y = routes ! j" by (simp add: rankRoute_fields)
      have "?y \<in> set pre \<or> ?y = x \<or> ?y \<in> set post"
        using mem [OF j] unfolding sp by auto
      then show ?thesis
      proof (elim disjE)
        assume "?y \<in> set pre"
        with before have "is_default (route ?y) \<or> try_route (route ?y) ?us ?isRoot = Inr None"
          by blast
        then have "try_route (routes ! j) ?us ?isRoot = Inr None"
          using ndj unfolding ry by simp
        from route_match_eq [OF this] mj show ?thesis by simp
      next
        assume "?y = x"
        then have "index ?y = index x" by simp
        then have "j = i" unfolding x by (simp add: rankRoute_fields)
        then show ?thesis by simp
      next
        assume "?y \<in> set post"
        with after have "le_ranked x ?y" by blast
        then show ?thesis
          unfolding x le_ranked_iff by (auto simp: rankRoute_fields)
      qed
    qed
    have "match_route mm = routes ! i"
      using try_route_Some_route [OF tr] rx by simp
    moreover have "\<not> is_default (routes ! i)" using nd rx by simp
    moreover have "route_match (routes ! i) uri = Some mm"
      using route_match_eq [OF tr] rx by simp
    ultimately have "\<exists>i<length routes. match_route mm = routes ! i \<and>
             ((\<not> is_default (routes ! i) \<and> route_match (routes ! i) uri = Some mm
                 \<and> (\<forall>j<length routes.
                       \<not> is_default (routes ! j) \<and> route_match (routes ! j) uri \<noteq> None
                       \<longrightarrow> route_points (routes ! j) < route_points (routes ! i)
                           \<or> (route_points (routes ! j) = route_points (routes ! i) \<and> i \<le> j)))
              \<or> (is_default (routes ! i) \<and> params mm = Map.empty \<and> match_uri mm = uri
                 \<and> (\<forall>j<length routes.
                       \<not> is_default (routes ! j) \<longrightarrow> route_match (routes ! j) uri = None)))"
      using i best by blast
    then show ?thesis using pk Some by simp
  next
    case None
    from pick_loop_None [OF pl [unfolded None]] have
      all: "\<forall>y\<in>set ?ranked. is_default (route y) \<or> try_route (route y) ?us ?isRoot = Inr None"
      and dd: "(d' = None \<and> (\<forall>y\<in>set ?ranked. \<not> is_default (route y)))
        \<or> (\<exists>y\<in>set ?ranked. is_default (route y)
              \<and> d' = Some \<lparr>match_route = route y, params = Map.empty, match_uri = uri\<rparr>)"
      by blast+
    have nomatch: "route_match (routes ! j) uri = None"
      if j: "j < length routes" and ndj: "\<not> is_default (routes ! j)" for j
    proof -
      from all mem [OF j] have "is_default (route (rankRoute (routes ! j) (int j)))
          \<or> try_route (route (rankRoute (routes ! j) (int j))) ?us ?isRoot = Inr None"
        by blast
      then have "try_route (routes ! j) ?us ?isRoot = Inr None"
        using ndj by (simp add: rankRoute_fields)
      then show ?thesis by (rule route_match_eq)
    qed
    from dd show ?thesis
    proof (elim disjE conjE bexE)
      assume d: "d' = None" and no: "\<forall>y\<in>set ?ranked. \<not> is_default (route y)"
      have "\<not> is_default (routes ! j)" if "j < length routes" for j
        using no mem [OF that] by (auto simp: rankRoute_fields)
      then show ?thesis using pk None d nomatch by simp
    next
      fix y assume y: "y \<in> set ?ranked" and dy: "is_default (route y)"
        and d: "d' = Some \<lparr>match_route = route y, params = Map.empty, match_uri = uri\<rparr>"
      from y obtain i where i: "i < length routes" and yi: "y = rankRoute (routes ! i) (int i)"
        by (auto simp: set_rankRoutes)
      have ry: "route y = routes ! i" unfolding yi by (simp add: rankRoute_fields)
      let ?dm = "\<lparr>match_route = routes ! i, params = Map.empty, match_uri = uri\<rparr>"
      have "is_default (routes ! i) \<and> params ?dm = Map.empty \<and> match_uri ?dm = uri
          \<and> (\<forall>j<length routes. \<not> is_default (routes ! j) \<longrightarrow> route_match (routes ! j) uri = None)"
        using dy ry nomatch by simp
      then have "\<exists>i<length routes. match_route ?dm = routes ! i \<and>
             ((\<not> is_default (routes ! i) \<and> route_match (routes ! i) uri = Some ?dm
                 \<and> (\<forall>j<length routes.
                       \<not> is_default (routes ! j) \<and> route_match (routes ! j) uri \<noteq> None
                       \<longrightarrow> route_points (routes ! j) < route_points (routes ! i)
                           \<or> (route_points (routes ! j) = route_points (routes ! i) \<and> i \<le> j)))
              \<or> (is_default (routes ! i) \<and> params ?dm = Map.empty \<and> match_uri ?dm = uri
                 \<and> (\<forall>j<length routes.
                       \<not> is_default (routes ! j) \<longrightarrow> route_match (routes ! j) uri = None)))"
        using i by (intro exI [of _ i]) simp
      moreover have "pick routes uri = Inr (Some ?dm)"
        using pk None d ry by simp
      ultimately show ?thesis by simp
    qed
  qed
qed

theorem pick_selects_best_witness:
  "list_all decodes (uri_segments (js ''/a/x''))
   \<and> (\<exists>res. pick [\<lparr>path = js ''/a/*'', is_default = False, route_value = ()\<rparr>,
                    \<lparr>path = js ''/a/:b'', is_default = False, route_value = ()\<rparr>,
                    \<lparr>path = js ''/'', is_default = True, route_value = ()\<rparr>] (js ''/a/x'')
          = Inr res)
   \<and> pick [\<lparr>path = js ''/a/*'', is_default = False, route_value = ()\<rparr>,
           \<lparr>path = js ''/a/:b'', is_default = False, route_value = ()\<rparr>,
           \<lparr>path = js ''/'', is_default = True, route_value = ()\<rparr>] (js ''/a/x'')
       = Inr (Some \<lparr>match_route = \<lparr>path = js ''/a/:b'', is_default = False, route_value = ()\<rparr>,
                    params = [js ''b'' \<mapsto> js ''x''], match_uri = js ''/a/x''\<rparr>)"
proof -
  let ?routes = "[\<lparr>path = js ''/a/*'', is_default = False, route_value = ()\<rparr>,
                  \<lparr>path = js ''/a/:b'', is_default = False, route_value = ()\<rparr>,
                  \<lparr>path = js ''/'', is_default = True, route_value = ()\<rparr>]"
  have h: "\<forall>seg\<in>set (uri_segments (js ''/a/x'')). decodes seg"
    by (simp add: uri_segments_def segmentize_def stripSlashes_def js_def decodes_def)
  from pick_selects_best [OF h, of ?routes]
  have c: "\<exists>res. pick ?routes (js ''/a/x'') = Inr res" by blast
  have e: "pick ?routes (js ''/a/x'')
       = Inr (Some \<lparr>match_route = \<lparr>path = js ''/a/:b'', is_default = False, route_value = ()\<rparr>,
                    params = [js ''b'' \<mapsto> js ''x''], match_uri = js ''/a/x''\<rparr>)"
    by (simp add: pick_def uri_segments_def segmentize_def stripSlashes_def js_def rankRoutes_def
        sort_ranked_def rankRoute_def try_route_def match_segments.simps js_nth_def isSplat_def
        paramRe_exec_def line_terminator_def Let_def compare_ranked_def isDynamic_def
        isRootSegment_def SEGMENT_POINTS_def ROOT_POINTS_def DYNAMIC_POINTS_def
        SPLAT_PENALTY_def STATIC_POINTS_def obj_set_def)
  have "list_all decodes (uri_segments (js ''/a/x''))"
    using h by (simp only: list_all_iff)
  with c e show ?thesis by blast
qed

section \<open>Properties of the Dashboard page\<close>

lemma set_matchday_frame:
  "set_matchday env' json t s = Inl (e, s') \<or> set_matchday env' json t s = Inr s'
     \<Longrightarrow> data s' = data s \<and> effects s' = effects s"
  by (auto simp: set_matchday_def Let_def split: option.splits sum.splits)

lemma init_header_frame:
  "data (init_header env' s) = data s \<and> effects (init_header env' s) = effects s"
  by (simp add: init_header_def Let_def split: option.splits)

lemma init_team_frame:
  "init_team env' s = Inl (e, s') \<or> init_team env' s = Inr s'
     \<Longrightarrow> data s' = data s \<and> filter is_Fetch (effects s') = filter is_Fetch (effects s)"
  by (auto simp: init_team_def Let_def split: option.splits if_splits)

lemma initDashboard_effects:
  "filter is_Fetch (effects (snd (initDashboard env' response' s)))
     = filter is_Fetch (effects s) @ [Fetch teams_endpoint]"
proof (cases response')
  case FetchRejected
  then show ?thesis by (simp add: initDashboard_def Let_def init_header_frame)
next
  case JsonRejected
  then show ?thesis by (simp add: initDashboard_def Let_def init_header_frame)
next
  case (Json json)
  let ?s3 = "(init_header env' s)\<lparr>effects := effects (init_header env' s) @ [Fetch teams_endpoint],
      teams := map fst (standings json)\<rparr>"
  have s3: "filter is_Fetch (effects ?s3) = filter is_Fetch (effects s) @ [Fetch teams_endpoint]"
    by (simp add: init_header_frame)
  have u: "initDashboard env' response' s =
      (case init_team env' ?s3 of
         Inl (e, s') \<Rightarrow> (Some e, s')
       | Inr s7 \<Rightarrow>
           (case (if team s7 \<noteq> Some (js ''Overview'')
                  then set_matchday env' (Some json) (template_string (team s7)) s7
                  else Inr s7) of
              Inl (e, s') \<Rightarrow> (Some e, s')
            | Inr s8 \<Rightarrow>
                (None, s8\<lparr>data := Some json,
                          effects := effects s8 @ [ConsoleLog, DispatchEvent (js ''resize'')]\<rparr>)))"
    using Json by (simp add: initDashboard_def Let_def)
  show ?thesis
  proof (cases "init_team env' ?s3")
    case (Inl p)
    obtain e s' where p: "p = (e, s')" by (cases p)
    from init_team_frame [OF disjI1, OF Inl [unfolded p]] s3
    show ?thesis unfolding u Inl p by simp
  next
    case (Inr s7)
    from init_team_frame [OF disjI2, OF Inr] s3
    have s7: "filter is_Fetch (effects s7) = filter is_Fetch (effects s) @ [Fetch teams_endpoint]"
      by simp
    show ?thesis
    proof (cases "if team s7 \<noteq> Some (js ''Overview'')
                  then set_matchday env' (Some json) (template_string (team s7)) s7
                  else Inr s7")
      case (Inl p)
      obtain e s' where p: "p = (e, s')" by (cases p)
      from Inl [unfolded p] have "effects s' = effects s7"
        by (auto split: if_splits dest: set_matchday_frame [OF disjI1])
      then show ?thesis unfolding u \<open>init_team env' ?s3 = Inr s7\<close> using Inl p s7 by simp
    next
      case (Inr s8)
      then have "effects s8 = effects s7"
        by (auto split: if_splits dest: set_matchday_frame [OF disjI2])
      then show ?thesis unfolding u \<open>init_team env' ?s3 = Inr s7\<close> using Inr s7 by simp
    qed
  qed
qed

lemma switchTeam_frame:
  "data (snd (switchTeam env' newTeam s)) = data s
   \<and> filter is_Fetch (effects (snd (switchTeam env' newTeam s))) = filter is_Fetch (effects s)"
  by (auto simp: switchTeam_def Let_def split: sum.splits prod.splits
        dest!: set_matchday_frame [OF disjI1] set_matchday_frame [OF disjI2])

lemma run_events_frame:
  "data (run_events env' evs s) = data s
   \<and> filter is_Fetch (effects (run_events env' evs s)) = filter is_Fetch (effects s)"
proof (induction evs arbitrary: s)
  case Nil
  then show ?case by simp
next
  case (Cons ev evs)
  then show ?case by (cases ev) (simp add: switchTeam_frame)
qed

lemma initDashboard_rejected:
  "initDashboard env' FetchRejected s = (r, s')
     \<Longrightarrow> r = Some FetchError \<and> data s' = data s \<and> effects s' = effects s @ [Fetch teams_endpoint]"
  by (auto simp: initDashboard_def Let_def init_header_frame)

text \<open>
  Claim C6. Loading the Dashboard makes exactly one network request, of the teams
  endpoint, however the request ends. If \<open>fetch\<close> is rejected, \<open>initDashboard\<close> ends there:
  it leaves \<open>data\<close> unset and does nothing after the request (no retry, no other request, no
  redirect), and from then on, whatever calls of \<open>switchTeam\<close> follow, \<open>data\<close> stays unset,
  no request is made and the page shows the loading spinner.
\<close>

theorem dashboard_single_fetch_no_recovery:
  "filter is_Fetch (effects (snd (initDashboard env' response' (initial_dashboard prop))))
     = [Fetch teams_endpoint]
   \<and> fst (initDashboard env' FetchRejected (initial_dashboard prop)) = Some FetchError
   \<and> data (snd (initDashboard env' FetchRejected (initial_dashboard prop))) = None
   \<and> effects (snd (initDashboard env' FetchRejected (initial_dashboard prop)))
       = [Fetch teams_endpoint]
   \<and> loading_spinner
       (run_events env' evs (snd (initDashboard env' FetchRejected (initial_dashboard prop))))
   \<and> filter is_Fetch (effects
       (run_events env' evs (snd (initDashboard env' FetchRejected (initial_dashboard prop)))))
       = [Fetch teams_endpoint]"
proof -
  let ?s0 = "initial_dashboard prop :: ('a, 'b) dashboard"
  have i: "data ?s0 = None" "effects ?s0 = []" by (simp_all add: initial_dashboard_def)
  obtain r s' where rs: "initDashboard env' FetchRejected ?s0 = (r, s')" by (cases "initDashboard env' FetchRejected ?s0")
  from initDashboard_rejected [OF rs] i
  have a: "r = Some FetchError" "data s' = None" "effects s' = [Fetch teams_endpoint]" by simp_all
  have b: "filter is_Fetch (effects (snd (initDashboard env' response' ?s0))) = [Fetch teams_endpoint]"
    using initDashboard_effects [of env' response' ?s0] i by simp
  have c: "data (run_events env' evs s') = None"
    "filter is_Fetch (effects (run_events env' evs s')) = [Fetch teams_endpoint]"
    using run_events_frame [of env' evs s'] a by simp_all
  show ?thesis using a b c rs by (simp add: loading_spinner_def)
qed

section \<open>Fetched objects changed in place\<close>

lemma mset_insert_by: "mset (insert_by compare x ys) = add_mset x (mset ys)"
  by (induction ys) simp_all

lemma mset_sort_by: "mset (sort_by compare xs) = mset xs"
  by (induction xs) (simp_all add: sort_by_def mset_insert_by)

lemma insert_colour_fst: "fst (insert_colour p c) = with_colour p"
  by (simp add: insert_colour_def with_colour_def verdict_def Let_def split: option.splits)

lemma insert_day_fst: "fst (insert_day ps c) = map with_colour ps"
proof (induction ps arbitrary: c)
  case Nil
  then show ?case by simp
next
  case (Cons p ps)
  obtain p' c1 where a: "insert_colour p c = (p', c1)" by (cases "insert_colour p c")
  obtain ps' c2 where b: "insert_day ps c1 = (ps', c2)" by (cases "insert_day ps c1")
  from insert_colour_fst [of p c] a have "p' = with_colour p" by simp
  moreover from Cons.IH [of c1] b have "ps' = map with_colour ps" by simp
  ultimately show ?case using a b by simp
qed

lemma insert_days_fst:
  "fst (insert_days ds c) = map (\<lambda>d. d\<lparr>predictions := map with_colour (predictions d)\<rparr>) ds"
proof (induction ds arbitrary: c)
  case Nil
  then show ?case by simp
next
  case (Cons d ds)
  obtain ps' c1 where a: "insert_day (predictions d) c = (ps', c1)"
    by (cases "insert_day (predictions d) c")
  obtain ds' c2 where b: "insert_days ds c1 = (ds', c2)" by (cases "insert_days ds c1")
  from insert_day_fst [of "predictions d" c] a have "ps' = map with_colour (predictions d)"
    by simp
  moreover from Cons.IH [of c1] b
  have "ds' = map (\<lambda>d. d\<lparr>predictions := map with_colour (predictions d)\<rparr>) ds" by simp
  ultimately show ?case using a b by simp
qed

lemma insertExtras_predictions:
  "predictions_of (insertExtras json)
     = map (\<lambda>d. d\<lparr>predictions := map with_colour (predictions d)\<rparr>) (predictions_of json)"
  using insert_days_fst [of "predictions_of json" "\<lparr>scoreCorrect = 0, resultCorrect = 0, total = 0\<rparr>"]
  by (simp add: insertExtras_def Let_def case_prod_beta)

text \<open>
  The Predictions page does not leave its fetched array unchanged: on a fetched array of one
  day with one prediction that has an actual score, the processing of the page writes the
  property \<open>colour\<close> into the fetched prediction.
\<close>

lemma process_predictions_changes_fetched:
  "predictions_of (process_predictions (\<lambda>s. 0)
      [\<lparr>day_id = js ''2022-08-06'',
        predictions = [\<lparr>datetime = js ''2022-08-06T15:00:00'',
                         prediction = \<lparr>homeGoals = 14 / 10, awayGoals = 6 / 10\<rparr>,
                         actual = Some \<lparr>homeGoals = 1, awayGoals = 1\<rparr>,
                         colour = None, other = ()\<rparr>]\<rparr>])
   = [\<lparr>day_id = js ''2022-08-06'',
       predictions = [\<lparr>datetime = js ''2022-08-06T15:00:00'',
                        prediction = \<lparr>homeGoals = 14 / 10, awayGoals = 6 / 10\<rparr>,
                        actual = Some \<lparr>homeGoals = 1, awayGoals = 1\<rparr>,
                        colour = Some (js ''green''), other = ()\<rparr>]\<rparr>]
   \<and> predictions_of (process_predictions (\<lambda>s. 0)
      [\<lparr>day_id = js ''2022-08-06'',
        predictions = [\<lparr>datetime = js ''2022-08-06T15:00:00'',
                         prediction = \<lparr>homeGoals = 14 / 10, awayGoals = 6 / 10\<rparr>,
                         actual = Some \<lparr>homeGoals = 1, awayGoals = 1\<rparr>,
                         colour = None, other = ()\<rparr>]\<rparr>])
   \<noteq> [\<lparr>day_id = js ''2022-08-06'',
        predictions = [\<lparr>datetime = js ''2022-08-06T15:00:00'',
                         prediction = \<lparr>homeGoals = 14 / 10, awayGoals = 6 / 10\<rparr>,
                         actual = Some \<lparr>homeGoals = 1, awayGoals = 1\<rparr>,
                         colour = None, other = ()\<rparr>]\<rparr>]"
  by (simp add: process_predictions_def insertExtras_def sortByDate_def sort_by_def Let_def
      insert_colour_def identicalScore_def math_round_def js_def floor_eq_iff)

lemma map_of_update_entry:
  "map_of (update_entry k f ps) k' = (if k' = k then map_option f (map_of ps k) else map_of ps k')"
  by (induction ps) auto

lemma standings_loop_snd:
  "snd (standings_loop sts season)
     = map (\<lambda>(team', seasons).
         (team', update_entry season (\<lambda>entry. entry\<lparr>standing_team := Some team'\<rparr>) seasons)) sts"
proof (induction sts)
  case Nil
  then show ?case by simp
next
  case (Cons a sts)
  obtain team' seasons where a: "a = (team', seasons)" by (cases a)
  show ?case using Cons.IH by (simp add: a Let_def case_prod_beta)
qed

lemma sortByDate_mset:
  "image_mset (\<lambda>d. (day_id d, mset (predictions d))) (mset (sortByDate time_value ds))
     = image_mset (\<lambda>d. (day_id d, mset (predictions d))) (mset ds)"
proof -
  have "image_mset (\<lambda>d. (day_id d, mset (predictions d))) (mset (sortByDate time_value ds))
      = image_mset (\<lambda>d. (day_id d, mset (predictions d)))
          (mset (sort_by (\<lambda>a b. time_value (day_id b) - time_value (day_id a)) ds))"
    by (simp add: sortByDate_def Let_def multiset.map_comp comp_def mset_sort_by)
  then show ?thesis by (simp add: mset_sort_by)
qed

text \<open>
  What the three functions change. \<open>sortByDate\<close> reorders the fetched array and the
  predictions of each day: the days and the predictions of each are the same, in another
  order (\<open>sortByDate_mset\<close>). \<open>insertExtras\<close> sets the property \<open>colour\<close> of every prediction
  that has an actual score, and changes no other property, no element and no order of the
  array (\<open>insertExtras_predictions\<close>, \<open>with_colour_only_colour\<close>). The loop of \<open>standingsTable\<close>
  sets the property \<open>team\<close> of the entry of every team of \<open>data.standings\<close> for the season
  \<open>data._id\<close> to the name of the team, and changes nothing else (\<open>standings_loop_snd\<close>,
  \<open>map_of_update_entry\<close>).
\<close>

lemma with_colour_only_colour: "(with_colour p)\<lparr>colour := colour p\<rparr> = p"
  by (simp add: with_colour_def split: option.splits)

end
